theory Spec2Isabelle
  imports Complex_Main "HOL-Library.Char_ord" "HOL-Library.List_Lexorder"
begin

section \<open>Floating-point values\<close>

text \<open>
  A numpy floating-point value is a finite number, an infinity or NaN. The special
  values follow IEEE-754: NaN is absorbing, \<open>inf - inf\<close>, \<open>0 * inf\<close>, \<open>0 / 0\<close> and
  \<open>inf / inf\<close> are NaN, and every comparison with NaN is false. Finite values are real
  numbers and the arithmetic of binary64 between them is exact: its rounding, overflow
  and underflow and the sign of zero are not modelled, except where a result depends on
  them by more than a rounding error: the casts to \<open>float32\<close>, the angles returned by
  \<open>np.arctan2\<close> and the one rounded addition of numpy's remainder are rounded, as
  written out below. A division of a nonzero finite number by zero gives the infinity of
  the dividend's sign (the zero is taken as positive).
\<close>

datatype fl = Fin real | PInf | NInf | NaN

definition signed_inf :: "bool \<Rightarrow> fl" where
  "signed_inf positive = (if positive then PInf else NInf)"

instantiation fl :: "{zero, one, plus, uminus, times}"
begin

definition zero_fl :: fl where
  "zero_fl = Fin 0"

definition one_fl :: fl where
  "one_fl = Fin 1"

fun plus_fl :: "fl \<Rightarrow> fl \<Rightarrow> fl" where
  "plus_fl NaN y = NaN"
| "plus_fl x NaN = NaN"
| "plus_fl (Fin a) (Fin b) = Fin (a + b)"
| "plus_fl PInf NInf = NaN"
| "plus_fl NInf PInf = NaN"
| "plus_fl PInf y = PInf"
| "plus_fl x PInf = PInf"
| "plus_fl NInf y = NInf"
| "plus_fl x NInf = NInf"

fun uminus_fl :: "fl \<Rightarrow> fl" where
  "uminus_fl (Fin a) = Fin (- a)"
| "uminus_fl PInf = NInf"
| "uminus_fl NInf = PInf"
| "uminus_fl NaN = NaN"

fun times_fl :: "fl \<Rightarrow> fl \<Rightarrow> fl" where
  "times_fl NaN y = NaN"
| "times_fl x NaN = NaN"
| "times_fl (Fin a) (Fin b) = Fin (a * b)"
| "times_fl (Fin a) PInf = (if a = 0 then NaN else signed_inf (0 < a))"
| "times_fl (Fin a) NInf = (if a = 0 then NaN else signed_inf (a < 0))"
| "times_fl PInf (Fin b) = (if b = 0 then NaN else signed_inf (0 < b))"
| "times_fl NInf (Fin b) = (if b = 0 then NaN else signed_inf (b < 0))"
| "times_fl PInf PInf = PInf"
| "times_fl NInf NInf = PInf"
| "times_fl PInf NInf = NInf"
| "times_fl NInf PInf = NInf"

instance ..

end

instantiation fl :: "{minus, inverse}"
begin

definition minus_fl :: "fl \<Rightarrow> fl \<Rightarrow> fl" where
  "minus_fl x y = x + (- y)"

fun divide_fl :: "fl \<Rightarrow> fl \<Rightarrow> fl" where
  "divide_fl NaN y = NaN"
| "divide_fl x NaN = NaN"
| "divide_fl (Fin a) (Fin b) =
     (if b = 0 then (if a = 0 then NaN else signed_inf (0 < a)) else Fin (a / b))"
| "divide_fl (Fin a) PInf = Fin 0"
| "divide_fl (Fin a) NInf = Fin 0"
| "divide_fl PInf (Fin b) = signed_inf (0 \<le> b)"
| "divide_fl NInf (Fin b) = signed_inf (b < 0)"
| "divide_fl PInf y = NaN"
| "divide_fl NInf y = NaN"

fun inverse_fl :: "fl \<Rightarrow> fl" where
  "inverse_fl (Fin b) = (if b = 0 then PInf else Fin (1 / b))"
| "inverse_fl PInf = Fin 0"
| "inverse_fl NInf = Fin 0"
| "inverse_fl NaN = NaN"

instance ..

end

text \<open>The comparisons \<open><\<close> and \<open><=\<close> of two floats; false when either side is NaN.\<close>

fun fl_less :: "fl \<Rightarrow> fl \<Rightarrow> bool" where
  "fl_less NaN y = False"
| "fl_less x NaN = False"
| "fl_less (Fin a) (Fin b) = (a < b)"
| "fl_less x NInf = False"
| "fl_less PInf y = False"
| "fl_less NInf y = True"
| "fl_less x PInf = True"

fun fl_le :: "fl \<Rightarrow> fl \<Rightarrow> bool" where
  "fl_le NaN y = False"
| "fl_le x NaN = False"
| "fl_le (Fin a) (Fin b) = (a \<le> b)"
| "fl_le NInf y = True"
| "fl_le x PInf = True"
| "fl_le x NInf = False"
| "fl_le PInf y = False"

definition isnan :: "fl \<Rightarrow> bool" where
  "isnan x = (x = NaN)"

fun isfinite :: "fl \<Rightarrow> bool" where
  "isfinite (Fin a) = True"
| "isfinite x = False"

text \<open>\<open>np.exp\<close>, and \<open>x ** 2\<close> on a float array.\<close>

fun np_exp :: "fl \<Rightarrow> fl" where
  "np_exp (Fin a) = Fin (exp a)"
| "np_exp PInf = PInf"
| "np_exp NInf = Fin 0"
| "np_exp NaN = NaN"

fun square :: "fl \<Rightarrow> fl" where
  "square (Fin a) = Fin (a * a)"
| "square PInf = PInf"
| "square NInf = PInf"
| "square NaN = NaN"

text \<open>\<open>10 ** y\<close> for a float array \<open>y\<close>.\<close>

fun pow10 :: "fl \<Rightarrow> fl" where
  "pow10 (Fin a) = Fin (10 powr a)"
| "pow10 PInf = PInf"
| "pow10 NInf = Fin 0"
| "pow10 NaN = NaN"

text \<open>
  Python's builtin \<open>max(a, b)\<close> and \<open>min(a, b)\<close>: the first argument is kept unless the
  second compares strictly greater (smaller).
\<close>

definition py_max2 :: "fl \<Rightarrow> fl \<Rightarrow> fl" where
  "py_max2 a b = (if fl_less a b then b else a)"

definition py_min2 :: "fl \<Rightarrow> fl \<Rightarrow> fl" where
  "py_min2 a b = (if fl_less b a then b else a)"

text \<open>\<open>np.sum\<close> of a one-dimensional array; the sum of the empty array is 0.\<close>

definition np_sum :: "fl list \<Rightarrow> fl" where
  "np_sum xs = foldl (+) (Fin 0) xs"

subsection \<open>Rounding\<close>

text \<open>
  Rounding to binary64, to nearest with ties to even, for a number in the normal range:
  the 53-bit significand of the result is the rounded quotient by the unit in the last
  place of the number's binade.
\<close>

definition round_half_even :: "real \<Rightarrow> int" where
  "round_half_even y =
     (let f = \<lfloor>y\<rfloor>; d = y - of_int f
      in if d < 1 / 2 then f else if 1 / 2 < d then f + 1 else if even f then f else f + 1)"

definition round64 :: "real \<Rightarrow> real" where
  "round64 x =
     (if x = 0 then 0
      else let ulp = 2 powr (of_int \<lfloor>log 2 \<bar>x\<bar>\<rfloor> - 52)
           in of_int (round_half_even (x / ulp)) * ulp)"

text \<open>
  Rounding to binary32, to nearest with ties to even: a 24-bit significand, and below
  the smallest normal exponent \<open>-126\<close> the spacing of the subnormal numbers.
  \<open>astype(np.float32)\<close> on a float64 array rounds so, and a number that rounds to
  \<open>2\<^sup>1\<^sup>2\<^sup>8\<close> or beyond in magnitude becomes the infinity of its sign.
\<close>

definition round32 :: "real \<Rightarrow> real" where
  "round32 x =
     (if x = 0 then 0
      else let ulp = 2 powr (of_int (max \<lfloor>log 2 \<bar>x\<bar>\<rfloor> (- 126)) - 23)
           in of_int (round_half_even (x / ulp)) * ulp)"

fun astype_float32 :: "fl \<Rightarrow> fl" where
  "astype_float32 (Fin a) =
     (let r = round32 a in if 2 ^ 128 \<le> \<bar>r\<bar> then signed_inf (0 < r) else Fin r)"
| "astype_float32 PInf = PInf"
| "astype_float32 NInf = NInf"
| "astype_float32 NaN = NaN"

section \<open>Exceptions\<close>

text \<open>
  The exception classes that the modelled code raises or catches. \<open>OtherException\<close>
  stands for any class that is none of the others. All of them derive from Python's
  \<open>Exception\<close>.
\<close>

datatype exn =
  ValueError | RuntimeError | OptimizeWarning | IndexError | KeyError
  | AttributeError | LinAlgError | OtherException

section \<open>The supernova parametric model (sn_parametric_model_computer.py)\<close>

subsection \<open>model_inference\<close>

definition model_inference_at ::
  "fl \<Rightarrow> fl \<Rightarrow> fl \<Rightarrow> fl \<Rightarrow> fl \<Rightarrow> fl \<Rightarrow> fl \<Rightarrow> fl" where
  "model_inference_at t A t0 gamma f t_rise t_fall =
     (let beta = Fin 1 / Fin 3;
          t1 = t0 + gamma;
          sigmoid = Fin 1 / (Fin 1 + np_exp (- beta * (t - t1)));
          den = Fin 1 + np_exp (- (t - t0) / t_rise)
      in A * (Fin 1 - f) * np_exp (- (t - t1) / t_fall) / den * sigmoid
         + A * (Fin 1 - f * (t - t0) / gamma) / den * (Fin 1 - sigmoid))"

definition model_inference ::
  "fl list \<Rightarrow> fl \<Rightarrow> fl \<Rightarrow> fl \<Rightarrow> fl \<Rightarrow> fl \<Rightarrow> fl \<Rightarrow> fl list" where
  "model_inference ts A t0 gamma f t_rise t_fall =
     map (\<lambda>t. model_inference_at t A t0 gamma f t_rise t_fall) ts"

subsection \<open>numpy and builtin helpers used by the fit\<close>

text \<open>
  \<open>np.argmax\<close> of a non-empty float array: the index of the first maximum, where a NaN
  counts as larger than everything (the scan replaces the current maximum by an element
  whenever \<open>not (element <= maximum)\<close> and stops at the first NaN).
\<close>

fun argmax_from :: "nat \<Rightarrow> fl \<Rightarrow> nat \<Rightarrow> fl list \<Rightarrow> nat" where
  "argmax_from best_i best i [] = best_i"
| "argmax_from best_i best i (x # xs) =
     (if isnan best then best_i
      else if \<not> fl_le x best then argmax_from i x (Suc i) xs
      else argmax_from best_i best (Suc i) xs)"

definition np_argmax :: "fl list \<Rightarrow> exn + nat" where
  "np_argmax xs = (case xs of [] \<Rightarrow> Inl ValueError | x # rest \<Rightarrow> Inr (argmax_from 0 x 1 rest))"

text \<open>Python's builtin \<open>max\<close> over a sequence; \<open>ValueError\<close> on an empty one.\<close>

definition py_max :: "fl list \<Rightarrow> exn + fl" where
  "py_max xs = (case xs of [] \<Rightarrow> Inl ValueError | x # rest \<Rightarrow> Inr (foldl py_max2 x rest))"

text \<open>Indexing a one-dimensional array with a non-negative index.\<close>

definition getitem :: "'a list \<Rightarrow> nat \<Rightarrow> exn + 'a" where
  "getitem xs i = (if i < length xs then Inr (xs ! i) else Inl IndexError)"

text \<open>
  An elementwise binary operation on two one-dimensional arrays, with numpy's
  broadcasting: equal lengths, or one of the two has length 1; any other pair of shapes
  raises \<open>ValueError\<close>.
\<close>

definition np_binop :: "(fl \<Rightarrow> fl \<Rightarrow> fl) \<Rightarrow> fl list \<Rightarrow> fl list \<Rightarrow> exn + fl list" where
  "np_binop f xs ys =
     (if length xs = length ys then Inr (map2 f xs ys)
      else if length ys = 1 then Inr (map (\<lambda>x. f x (hd ys)) xs)
      else if length xs = 1 then Inr (map (f (hd xs)) ys)
      else Inl ValueError)"

subsection \<open>SNModelScipy\<close>

text \<open>
  \<open>scipy.optimize.curve_fit\<close> is a parameter of the model. One call is recorded with
  the arguments the source passes besides the model function: the data, the initial
  guess, the two rows of bounds and the tolerance. It returns the optimal parameters
  (the covariance is never read) or raises.
\<close>

record curve_fit_call =
  xdata :: "fl list"
  ydata :: "fl list"
  p0 :: "fl list"
  lower_bounds :: "fl list"
  upper_bounds :: "fl list"
  ftol :: fl

type_synonym curve_fit = "curve_fit_call \<Rightarrow> exn + fl list"

text \<open>
  \<open>self.parameters\<close> holds either the numpy array returned by \<open>curve_fit\<close> or the plain
  Python list of six NaN assigned after the second failure; \<open>None\<close> before the first fit.
\<close>

datatype pyseq = NdArray "fl list" | PyList "fl list"

fun elements :: "pyseq \<Rightarrow> fl list" where
  "elements (NdArray xs) = xs"
| "elements (PyList xs) = xs"

record SNModelScipy =
  parameters :: "pyseq option"

definition SNModelScipy_init :: SNModelScipy where
  "SNModelScipy_init = \<lparr>parameters = None\<rparr>"

definition A_bounds :: "fl \<Rightarrow> fl list" where
  "A_bounds max_fluxpsf = [max_fluxpsf / Fin 3, max_fluxpsf * Fin 3]"

definition A_guess :: "fl \<Rightarrow> fl" where
  "A_guess max_fluxpsf =
     py_max2 (A_bounds max_fluxpsf ! 1) (py_max2 (A_bounds max_fluxpsf ! 0) (Fin 1.2 * max_fluxpsf))"

definition gamma_guess :: "fl \<Rightarrow> fl" where
  "gamma_guess max_times = py_min2 (Fin 100) (py_max2 (Fin 1) max_times)"

definition trise_guess :: "fl \<Rightarrow> fl" where
  "trise_guess time_of_max = py_min2 (Fin 100) (py_max2 (Fin 1) (time_of_max / Fin 2))"

definition curve_fit_args ::
  "fl list \<Rightarrow> fl list \<Rightarrow> fl \<Rightarrow> fl \<Rightarrow> fl \<Rightarrow> fl \<Rightarrow> curve_fit_call" where
  "curve_fit_args ts fluxpsf max_fluxpsf g_guess tr_guess tol =
     \<lparr>xdata = ts, ydata = fluxpsf,
      p0 = [A_guess max_fluxpsf, Fin (- 5), g_guess, Fin 0.5, tr_guess, Fin 40],
      lower_bounds = [A_bounds max_fluxpsf ! 0, Fin (- 50), Fin 1, Fin 0, Fin 1, Fin 1],
      upper_bounds = [A_bounds max_fluxpsf ! 1, Fin 50, Fin 100, Fin 1, Fin 100, Fin 100],
      ftol = tol\<rparr>"

text \<open>The exception classes of the two \<open>except\<close> clauses of \<open>fit\<close>.\<close>

definition fit_catches :: "exn \<Rightarrow> bool" where
  "fit_catches e = (e = ValueError \<or> e = RuntimeError \<or> e = OptimizeWarning)"

text \<open>
  The nested \<open>try\<close> of \<open>fit\<close>: the calls made to \<open>curve_fit\<close>, in order, and the value of
  \<open>pout\<close> or the exception that neither clause catches.
\<close>

definition get_parameters ::
  "curve_fit \<Rightarrow> curve_fit_call \<Rightarrow> curve_fit_call \<Rightarrow> curve_fit_call list \<times> (exn + pyseq)" where
  "get_parameters cf first second =
     (case cf first of
        Inr pout \<Rightarrow> ([first], Inr (NdArray pout))
      | Inl e \<Rightarrow>
          if fit_catches e then
            (case cf second of
               Inr pout \<Rightarrow> ([first, second], Inr (NdArray pout))
             | Inl e' \<Rightarrow>
                 if fit_catches e' then
                   ([first, second], Inr (PyList [NaN, NaN, NaN, NaN, NaN, NaN]))
                 else ([first, second], Inl e'))
          else ([first], Inl e))"

text \<open>
  The end of \<open>fit\<close>, after \<open>self.parameters = pout\<close>: the predictions and the reduced
  chi-square. \<open>chi_den\<close> is a Python integer and may be negative.
\<close>

definition chi_per_degree :: "pyseq \<Rightarrow> fl list \<Rightarrow> fl list \<Rightarrow> fl list \<Rightarrow> exn + fl" where
  "chi_per_degree pout ts targets obs_errors =
     (let ps = elements pout in
      if length ps < 6 then Inl IndexError
      else
        let predictions = model_inference ts (ps ! 0) (ps ! 1) (ps ! 2) (ps ! 3) (ps ! 4) (ps ! 5) in
        case np_binop (-) predictions targets of
          Inl e \<Rightarrow> Inl e
        | Inr residuals \<Rightarrow>
            (case np_binop (/) (map square residuals)
                    (map (\<lambda>err. square (err + Fin 0.01)) obs_errors) of
               Inl e \<Rightarrow> Inl e
             | Inr terms \<Rightarrow>
                 let chi = np_sum terms;
                     chi_den = int (length predictions) - int (length ps)
                 in Inr (if 1 \<le> chi_den then chi / Fin (of_int chi_den) else NaN)))"

text \<open>
  \<open>fit\<close> returns the calls made to \<open>curve_fit\<close>, the object afterwards and the returned
  reduced chi-square or the exception raised. The object is unchanged when the
  exception is raised before the assignment to \<open>self.parameters\<close>.
\<close>

definition fit ::
  "curve_fit \<Rightarrow> SNModelScipy \<Rightarrow> fl list \<Rightarrow> fl list \<Rightarrow> fl list
     \<Rightarrow> curve_fit_call list \<times> SNModelScipy \<times> (exn + fl)" where
  "fit cf self ts targets obs_errors =
     (let fluxpsf = targets in
      case np_argmax fluxpsf of
        Inl e \<Rightarrow> ([], self, Inl e)
      | Inr argmax_fluxpsf \<Rightarrow>
          let max_fluxpsf = fluxpsf ! argmax_fluxpsf in
          (case py_max ts of
             Inl e \<Rightarrow> ([], self, Inl e)
           | Inr max_times \<Rightarrow>
               (case getitem ts argmax_fluxpsf of
                  Inl e \<Rightarrow> ([], self, Inl e)
                | Inr time_of_max \<Rightarrow>
                    let args = curve_fit_args ts fluxpsf max_fluxpsf
                                 (gamma_guess max_times) (trise_guess time_of_max);
                        (calls, r) = get_parameters cf
                                       (args (A_guess max_fluxpsf / Fin 20))
                                       (args (A_guess max_fluxpsf / Fin 3))
                    in (case r of
                          Inl e \<Rightarrow> (calls, self, Inl e)
                        | Inr pout \<Rightarrow>
                            (calls, self\<lparr>parameters := Some pout\<rparr>,
                             chi_per_degree pout ts targets obs_errors)))))"

text \<open>\<open>get_model_parameters\<close>: \<open>self.parameters.tolist()\<close>, a method of numpy arrays only.\<close>

definition get_model_parameters :: "SNModelScipy \<Rightarrow> exn + fl list" where
  "get_model_parameters self =
     (case parameters self of
        Some (NdArray xs) \<Rightarrow> Inr xs
      | Some (PyList xs) \<Rightarrow> Inl AttributeError
      | None \<Rightarrow> Inl AttributeError)"

text \<open>
  What the model assumes of \<open>curve_fit\<close> where a property needs it: the optimal
  parameters have one entry per entry of the initial guess \<open>p0\<close>.
\<close>

definition popt_shaped :: "curve_fit \<Rightarrow> bool" where
  "popt_shaped cf = (\<forall>c ps. cf c = Inr ps \<longrightarrow> length ps = length (p0 c))"

text \<open>
  The reduced chi-square in the words of the specification: the sum over the
  observations of the squared residual divided by \<open>(error + 0.01)\<^sup>2\<close>, divided by the
  number of observations minus 6.
\<close>

definition reduced_chi_square :: "fl list \<Rightarrow> fl list \<Rightarrow> fl list \<Rightarrow> fl" where
  "reduced_chi_square predictions targets obs_errors =
     np_sum (map (\<lambda>i. square (predictions ! i - targets ! i) / square (obs_errors ! i + Fin 0.01))
                 [0..<length predictions])
     / Fin (real (length predictions) - 6)"

subsection \<open>SNParametricModelExtractor\<close>

text \<open>
  A row of the detections table: the index \<open>oid\<close> and the columns that the two
  extractors read. The table is the list of its rows, in order.
\<close>

record detection =
  oid :: string
  fid :: int
  mjd :: fl
  magpsf :: fl
  sigmapsf :: fl
  magpsf_ml :: fl
  sigmapsf_ml :: fl

definition mag_to_flux :: "fl \<Rightarrow> fl" where
  "mag_to_flux mag = pow10 (- (mag + Fin 48.6) / Fin 2.5 + Fin 26)"

definition sn_get_features_keys :: "string list" where
  "sn_get_features_keys =
     [''SPM_A'', ''SPM_t0'', ''SPM_gamma'', ''SPM_beta'', ''SPM_tau_rise'', ''SPM_tau_fall'',
      ''SPM_chi'']"

text \<open>
  Modelled from the spec: \<open>nan_series_in_band\<close> of the base class
  \<open>FeatureExtractorSingleBand\<close> (core/base.py is not among the sources). Section 4.1: the
  row of an object without detections in the band is ``a FeatureVector whose every value
  is the missing-value sentinel'', one value per feature name.
\<close>

definition nan_series_in_band :: "string list \<Rightarrow> fl list" where
  "nan_series_in_band features_keys = map (\<lambda>key. NaN) features_keys"

text \<open>\<open>np.minimum\<close> propagates NaN; \<open>np.min\<close> of an empty array raises \<open>ValueError\<close>.\<close>

definition np_minimum :: "fl \<Rightarrow> fl \<Rightarrow> fl" where
  "np_minimum a b = (if isnan a \<or> isnan b then NaN else if fl_less b a then b else a)"

definition np_min :: "fl list \<Rightarrow> exn + fl" where
  "np_min xs = (case xs of [] \<Rightarrow> Inl ValueError | x # rest \<Rightarrow> Inr (foldl np_minimum x rest))"

text \<open>\<open>dropna\<close> on the columns \<open>mjd\<close>, \<open>magpsf\<close>, \<open>sigmapsf\<close>: rows with a NaN go.\<close>

definition dropna :: "detection list \<Rightarrow> detection list" where
  "dropna rows =
     filter (\<lambda>d. \<not> isnan (mjd d) \<and> \<not> isnan (magpsf d) \<and> \<not> isnan (sigmapsf d)) rows"

text \<open>
  \<open>aux_function\<close> of \<open>compute_feature_in_one_band_from_group\<close>, applied to the rows of
  one object: the calls made to \<open>curve_fit\<close>, \<open>self.sn_model\<close> afterwards and the row of
  features or the exception raised. The times and the fluxes are cast to \<open>float32\<close>
  before the fit; the errors are not. \<open>logging.debug\<close> is left out. \<open>pd.Series\<close>
  raises \<open>ValueError\<close> when the number of values is not the number of columns.
\<close>

definition aux_function ::
  "curve_fit \<Rightarrow> SNModelScipy \<Rightarrow> int \<Rightarrow> detection list
     \<Rightarrow> curve_fit_call list \<times> SNModelScipy \<times> (exn + fl list)" where
  "aux_function cf sn_model band oid_detections =
     (if band \<notin> set (map fid oid_detections) then
        ([], sn_model, Inr (nan_series_in_band sn_get_features_keys))
      else
        let oid_band_detections = dropna (filter (\<lambda>d. fid d = band) oid_detections);
            ts = map mjd oid_band_detections
        in case np_min ts of
             Inl e \<Rightarrow> ([], sn_model, Inl e)
           | Inr min_time \<Rightarrow>
               (let ts = map (\<lambda>t. t - min_time) ts;
                    mag_targets = map magpsf oid_band_detections;
                    targets = map mag_to_flux mag_targets;
                    errors = map sigmapsf oid_band_detections;
                    errors = map (\<lambda>(m, e, target). mag_to_flux (m - e) - target)
                               (zip mag_targets (zip errors targets));
                    ts = map astype_float32 ts;
                    targets = map astype_float32 targets
                in (case fit cf sn_model ts targets errors of
                      (calls, sn_model', Inl e) \<Rightarrow> (calls, sn_model', Inl e)
                    | (calls, sn_model', Inr fit_error) \<Rightarrow>
                        (case get_model_parameters sn_model' of
                           Inl e \<Rightarrow> (calls, sn_model', Inl e)
                         | Inr model_parameters \<Rightarrow>
                             if length (model_parameters @ [fit_error]) = length sn_get_features_keys
                             then (calls, sn_model', Inr (model_parameters @ [fit_error]))
                             else (calls, sn_model', Inl ValueError)))))"

text \<open>
  \<open>detections.groupby(level=0)\<close>: one group per object id, the groups in the sorted
  order of the ids, each with the rows of its object in the order of the table.
\<close>

definition groupby_oid :: "detection list \<Rightarrow> (string \<times> detection list) list" where
  "groupby_oid detections =
     map (\<lambda>key. (key, filter (\<lambda>d. oid d = key) detections)) (sort (remdups (map oid detections)))"

text \<open>
  \<open>detections.apply(aux_function)\<close>: the groups in order, one row per group; an exception
  raised for one group leaves the whole call.
\<close>

fun apply_aux_function ::
  "curve_fit \<Rightarrow> SNModelScipy \<Rightarrow> int \<Rightarrow> (string \<times> detection list) list
     \<Rightarrow> curve_fit_call list \<times> SNModelScipy \<times> (exn + (string \<times> fl list) list)" where
  "apply_aux_function cf sn_model band [] = ([], sn_model, Inr [])"
| "apply_aux_function cf sn_model band ((key, rows) # groups) =
     (case aux_function cf sn_model band rows of
        (calls, sn_model', Inl e) \<Rightarrow> (calls, sn_model', Inl e)
      | (calls, sn_model', Inr row) \<Rightarrow>
          (case apply_aux_function cf sn_model' band groups of
             (calls', sn_model'', Inl e) \<Rightarrow> (calls @ calls', sn_model'', Inl e)
           | (calls', sn_model'', Inr table) \<Rightarrow>
               (calls @ calls', sn_model'', Inr ((key, row) # table))))"

definition sn_compute_feature_in_one_band ::
  "curve_fit \<Rightarrow> SNModelScipy \<Rightarrow> detection list \<Rightarrow> int
     \<Rightarrow> curve_fit_call list \<times> SNModelScipy \<times> (exn + (string \<times> fl list) list)" where
  "sn_compute_feature_in_one_band cf sn_model detections band =
     apply_aux_function cf sn_model band (groupby_oid detections)"

section \<open>The harmonic fit (harmonics_extractor.py)\<close>

subsection \<open>numpy functions used by the harmonic fit\<close>

text \<open>\<open>np.pi\<close>, the binary64 number nearest to \<open>\<pi>\<close>; \<open>2 * np.pi\<close> is its exact double.\<close>

definition np_pi :: real where
  "np_pi = 884279719003555 / 2 ^ 48"

fun np_cos :: "fl \<Rightarrow> fl" where
  "np_cos (Fin a) = Fin (cos a)"
| "np_cos x = NaN"

fun np_sin :: "fl \<Rightarrow> fl" where
  "np_sin (Fin a) = Fin (sin a)"
| "np_sin x = NaN"

fun np_sqrt :: "fl \<Rightarrow> fl" where
  "np_sqrt (Fin a) = (if a < 0 then NaN else Fin (sqrt a))"
| "np_sqrt PInf = PInf"
| "np_sqrt NInf = NaN"
| "np_sqrt NaN = NaN"

text \<open>
  The angle of the point \<open>(x, y)\<close>, in \<open>(-\<pi>, \<pi>]\<close>, and \<open>np.arctan2(y, x)\<close>, which
  returns the binary64 number nearest to that angle: \<open>np.pi\<close> for the angle \<open>\<pi>\<close>.
\<close>

definition arctan2 :: "real \<Rightarrow> real \<Rightarrow> real" where
  "arctan2 y x =
     (if 0 < x then arctan (y / x)
      else if x < 0 then (if 0 \<le> y then arctan (y / x) + pi else arctan (y / x) - pi)
      else if 0 < y then pi / 2
      else if y < 0 then - pi / 2
      else 0)"

fun np_arctan2 :: "fl \<Rightarrow> fl \<Rightarrow> fl" where
  "np_arctan2 NaN x = NaN"
| "np_arctan2 y NaN = NaN"
| "np_arctan2 (Fin y) (Fin x) = Fin (round64 (arctan2 y x))"
| "np_arctan2 (Fin y) PInf = Fin 0"
| "np_arctan2 (Fin y) NInf = Fin (round64 (if 0 \<le> y then pi else - pi))"
| "np_arctan2 PInf (Fin x) = Fin (round64 (pi / 2))"
| "np_arctan2 NInf (Fin x) = Fin (round64 (- pi / 2))"
| "np_arctan2 PInf PInf = Fin (round64 (pi / 4))"
| "np_arctan2 PInf NInf = Fin (round64 (3 * pi / 4))"
| "np_arctan2 NInf PInf = Fin (round64 (- pi / 4))"
| "np_arctan2 NInf NInf = Fin (round64 (- 3 * pi / 4))"

text \<open>C's \<open>fmod\<close>: the exact remainder of the quotient truncated towards zero.\<close>

definition fmod :: "real \<Rightarrow> real \<Rightarrow> real" where
  "fmod a b = a - b * of_int (if 0 \<le> a / b then \<lfloor>a / b\<rfloor> else \<lceil>a / b\<rceil>)"

text \<open>
  The operator \<open>%\<close> on float arrays (\<open>np.remainder\<close>): \<open>fmod\<close>, and when the remainder
  is not zero and its sign is not the sign of the divisor, the divisor is added to it.
  That addition is a floating-point addition, so its result is rounded.
\<close>

fun np_mod :: "fl \<Rightarrow> fl \<Rightarrow> fl" where
  "np_mod NaN y = NaN"
| "np_mod x NaN = NaN"
| "np_mod PInf y = NaN"
| "np_mod NInf y = NaN"
| "np_mod (Fin a) (Fin b) =
     (if b = 0 then NaN
      else let m = fmod a b
           in if m \<noteq> 0 \<and> ((b < 0) \<noteq> (m < 0)) then Fin (round64 (m + b)) else Fin m)"
| "np_mod (Fin a) PInf = (if a < 0 then PInf else Fin a)"
| "np_mod (Fin a) NInf = (if 0 < a then NInf else Fin a)"

definition np_mean :: "fl list \<Rightarrow> fl" where
  "np_mean xs = np_sum xs / Fin (real (length xs))"

text \<open>
  The product of a matrix (the list of its rows) and a vector, for \<open>np.dot\<close> and for
  \<open>np.matmul\<close> with a one-column matrix; shapes that do not fit raise \<open>ValueError\<close>.
\<close>

definition np_dot :: "fl list list \<Rightarrow> fl list \<Rightarrow> exn + fl list" where
  "np_dot rows v =
     (if list_all (\<lambda>row. length row = length v) rows
      then Inr (map (\<lambda>row. np_sum (map2 (*) row v)) rows)
      else Inl ValueError)"

subsection \<open>HarmonicsExtractor\<close>

text \<open>Decimal digits of a natural number, as \<open>'%d'\<close> prints it.\<close>

fun show_nat :: "nat \<Rightarrow> string" where
  "show_nat n = (if n < 10 then [''0123456789'' ! n] else show_nat (n div 10) @ [''0123456789'' ! (n mod 10)])"

declare show_nat.simps [simp del]

definition harmonics_get_features_keys :: "nat \<Rightarrow> string list" where
  "harmonics_get_features_keys n_harmonics =
     map (\<lambda>i. ''Harmonics_mag_'' @ show_nat (i + 1)) [0..<n_harmonics]
     @ map (\<lambda>i. ''Harmonics_phase_'' @ show_nat (i + 1)) [1..<n_harmonics]
     @ [''Harmonics_mse'']"

text \<open>\<open>self.n_harmonics\<close> as \<open>__init__\<close> sets it.\<close>

definition HarmonicsExtractor_init :: nat where
  "HarmonicsExtractor_init = 7"

text \<open>
  \<open>np.linalg.pinv\<close> is a parameter of the model: it returns a matrix or raises. The
  table of periods maps a column name to the values of that column by object id.
\<close>

type_synonym pinv = "fl list list \<Rightarrow> exn + fl list list"

type_synonym periods = "string \<rightharpoonup> (string \<rightharpoonup> fl)"

definition omega_row :: "nat \<Rightarrow> fl \<Rightarrow> fl \<Rightarrow> fl list" where
  "omega_row n_harmonics best_freq t =
     Fin 1
     # map (\<lambda>k. np_cos (Fin (2 * np_pi) * best_freq * Fin (real k) * t)) [1..<n_harmonics + 1]
     @ map (\<lambda>k. np_sin (Fin (2 * np_pi) * best_freq * Fin (real k) * t)) [1..<n_harmonics + 1]"

definition coef_cos :: "nat \<Rightarrow> fl list \<Rightarrow> fl list" where
  "coef_cos n_harmonics coeffs = take n_harmonics (drop 1 coeffs)"

definition coef_sin :: "nat \<Rightarrow> fl list \<Rightarrow> fl list" where
  "coef_sin n_harmonics coeffs = drop (n_harmonics + 1) coeffs"

definition coef_mag :: "nat \<Rightarrow> fl list \<Rightarrow> fl list" where
  "coef_mag n_harmonics coeffs =
     map2 (\<lambda>c s. np_sqrt (square c + square s)) (coef_cos n_harmonics coeffs)
       (coef_sin n_harmonics coeffs)"

text \<open>\<open>coef_phi\<close> as \<open>np.arctan2\<close> returns it, before the relative phase is taken.\<close>

definition coef_phi :: "nat \<Rightarrow> fl list \<Rightarrow> fl list" where
  "coef_phi n_harmonics coeffs =
     map2 np_arctan2 (coef_sin n_harmonics coeffs) (coef_cos n_harmonics coeffs)"

text \<open>
  The two lines under the comment \<open>Relative phase\<close>: \<open>coef_phi[0]\<close> raises
  \<open>IndexError\<close> on an empty array.
\<close>

definition relative_phase :: "nat \<Rightarrow> fl list \<Rightarrow> exn + fl list" where
  "relative_phase n_harmonics phi =
     (case phi of
        [] \<Rightarrow> Inl IndexError
      | phi0 # rest \<Rightarrow>
          Inr (map (\<lambda>p. np_mod p (Fin (2 * np_pi)))
                 (tl (map2 (\<lambda>p k. p - phi0 * Fin (real k)) phi [1..<n_harmonics + 1]))))"

text \<open>
  The first lines of the \<open>try\<close> block, for one object: the period of the object, read
  from the column \<open>Multiband_period\<close> (\<open>KeyError\<close> when the column or the object is not
  there), and the matrix \<open>Omega\<close> with one row per detection: a one, the cosines and the
  sines of the harmonics at the time of the detection.
\<close>

definition harmonic_omega ::
  "nat \<Rightarrow> periods \<Rightarrow> string \<Rightarrow> fl list \<Rightarrow> exn + fl list list" where
  "harmonic_omega n_harmonics periods object_id time =
     (case periods ''Multiband_period'' of
        None \<Rightarrow> Inl KeyError
      | Some column \<Rightarrow>
          (case column object_id of
             None \<Rightarrow> Inl KeyError
           | Some period \<Rightarrow>
               (let best_freq = Fin 1 / period
                in Inr (map (omega_row n_harmonics best_freq) time))))"

text \<open>
  The weighted least-squares solution \<open>coeffs\<close>: the pseudo-inverse of the weighted
  matrix, times the weighted magnitudes.
\<close>

definition harmonic_coeffs ::
  "pinv \<Rightarrow> fl list list \<Rightarrow> fl list \<Rightarrow> fl list \<Rightarrow> exn + fl list" where
  "harmonic_coeffs pinv omega magnitude error =
     (let inverr = map (\<lambda>e. Fin 1 / e) error;
          w_a = map2 (\<lambda>w row. map (\<lambda>x. w * x) row) inverr omega;
          w_b = map2 (*) magnitude inverr
      in (case pinv w_a of
            Inl e \<Rightarrow> Inl e
          | Inr pinv_w_a \<Rightarrow> np_dot pinv_w_a w_b))"

text \<open>
  The body of the \<open>try\<close> block, for one object: the list of features or the exception
  raised. The three arrays have one entry per detection of the object in the band.
  After \<open>np.dot(omega, coeffs)\<close> has succeeded, \<open>coeffs\<close> has \<open>2 * n_harmonics + 1\<close>
  entries, so the elementwise operations on \<open>coef_cos\<close> and \<open>coef_sin\<close> meet arrays of
  one length.
\<close>

definition harmonic_fit ::
  "pinv \<Rightarrow> nat \<Rightarrow> periods \<Rightarrow> string \<Rightarrow> fl list \<Rightarrow> fl list \<Rightarrow> fl list \<Rightarrow> exn + fl list" where
  "harmonic_fit pinv n_harmonics periods object_id magnitude time error =
     (case harmonic_omega n_harmonics periods object_id time of
        Inl e \<Rightarrow> Inl e
      | Inr omega \<Rightarrow>
          (case harmonic_coeffs pinv omega magnitude error of
             Inl e \<Rightarrow> Inl e
           | Inr coeffs \<Rightarrow>
               (case np_dot omega coeffs of
                  Inl e \<Rightarrow> Inl e
                | Inr fitted_magnitude \<Rightarrow>
                    (case relative_phase n_harmonics (coef_phi n_harmonics coeffs) of
                       Inl e \<Rightarrow> Inl e
                     | Inr phi \<Rightarrow>
                         (let mse = np_mean (map square (map2 (-) fitted_magnitude magnitude))
                          in Inr (coef_mag n_harmonics coeffs @ phi @ [mse]))))))"

text \<open>What the extractor logs, and its use of the period extractor.\<close>

datatype log_level = DEBUG | INFO | ERROR

datatype log_message =
  NoPeriodData
  | MissingBand string int
  | PeriodNotAvailable string exn

datatype event = Log log_level log_message | PeriodExtractor_compute_features

text \<open>
  \<open>PeriodExtractor().compute_features\<close> is a parameter of the model (the class is not
  among the sources). \<open>kwargs\<close> maps a keyword to a dictionary of tables; only
  \<open>shared_data\<close> is read.
\<close>

type_synonym period_extractor = "detection list \<Rightarrow> exn + periods"

type_synonym kwargs = "string \<rightharpoonup> (string \<rightharpoonup> periods)"

definition get_periods ::
  "period_extractor \<Rightarrow> kwargs \<Rightarrow> detection list \<Rightarrow> event list \<times> (exn + periods)" where
  "get_periods period_extractor kwargs detections =
     (case kwargs ''shared_data'' of
        None \<Rightarrow>
          ([Log INFO NoPeriodData, PeriodExtractor_compute_features], period_extractor detections)
      | Some shared_data \<Rightarrow>
          (case shared_data ''period'' of
             None \<Rightarrow>
               ([Log INFO NoPeriodData, PeriodExtractor_compute_features],
                period_extractor detections)
           | Some periods \<Rightarrow> ([], Inr periods)))"

text \<open>\<open>Index.unique()\<close>: the distinct values in the order of their first occurrence.\<close>

fun unique_from :: "'a list \<Rightarrow> 'a list \<Rightarrow> 'a list" where
  "unique_from seen [] = []"
| "unique_from seen (x # xs) =
     (if x \<in> set seen then unique_from seen xs else x # unique_from (x # seen) xs)"

definition unique :: "'a list \<Rightarrow> 'a list" where
  "unique xs = unique_from [] xs"

text \<open>One pass of the loop over the object ids: what is logged and the row appended.\<close>

definition harmonics_object ::
  "pinv \<Rightarrow> nat \<Rightarrow> periods \<Rightarrow> int \<Rightarrow> detection list \<Rightarrow> string \<Rightarrow> event list \<times> fl list" where
  "harmonics_object pinv n_harmonics periods band detections object_id =
     (let oid_detections = filter (\<lambda>d. oid d = object_id) detections in
      if band \<notin> set (map fid oid_detections) then
        ([Log INFO (MissingBand object_id band)],
         replicate (length (harmonics_get_features_keys n_harmonics)) NaN)
      else
        let oid_band_detections = filter (\<lambda>d. fid d = band) oid_detections;
            magnitude = map magpsf_ml oid_band_detections;
            time = map mjd oid_band_detections;
            error = map (\<lambda>d. sigmapsf_ml d + Fin 0.01) oid_band_detections
        in (case harmonic_fit pinv n_harmonics periods object_id magnitude time error of
              Inr features \<Rightarrow> ([], features)
            | Inl e \<Rightarrow>
                ([Log ERROR (PeriodNotAvailable object_id e)],
                 replicate (length (harmonics_get_features_keys n_harmonics)) NaN)))"

text \<open>
  \<open>compute_feature_in_one_band\<close> of \<open>HarmonicsExtractor\<close>: the events in order and the
  table, a list of rows with their object ids, or the exception raised. With no object,
  \<open>np.array(features)\<close> has no second dimension and the constructor of \<open>DataFrame\<close>
  raises \<open>ValueError\<close>, since columns are named.
\<close>

definition harmonics_compute_feature_in_one_band ::
  "period_extractor \<Rightarrow> pinv \<Rightarrow> nat \<Rightarrow> detection list \<Rightarrow> int \<Rightarrow> kwargs
     \<Rightarrow> event list \<times> (exn + (string \<times> fl list) list)" where
  "harmonics_compute_feature_in_one_band period_extractor pinv n_harmonics detections band kwargs =
     (case get_periods period_extractor kwargs detections of
        (events, Inl e) \<Rightarrow> (events, Inl e)
      | (events, Inr periods) \<Rightarrow>
          (let oids = unique (map oid detections);
               results = map (harmonics_object pinv n_harmonics periods band detections) oids;
               events = events @ concat (map fst results);
               features = map snd results
           in if features = [] then (events, Inl ValueError)
              else (events, Inr (zip oids features))))"

section \<open>Properties\<close>

subsection \<open>NaN is absorbing\<close>

lemma fl_add_NaN [simp]: "x + NaN = NaN" "NaN + x = NaN"
  by (cases x; simp)+

lemma fl_sub_NaN [simp]: "x - NaN = NaN" "NaN - x = NaN"
  by (simp_all add: minus_fl_def)

lemma fl_mul_NaN [simp]: "x * NaN = NaN" "NaN * x = NaN"
  by (cases x; simp)+

lemma fl_div_NaN [simp]: "x / NaN = NaN" "NaN / x = NaN"
  by (cases x; simp)+

lemma model_inference_at_NaN: "model_inference_at t NaN t0 gamma f t_rise t_fall = NaN"
  by (simp add: model_inference_at_def Let_def)

lemma np_sum_NaN: "xs \<noteq> [] \<Longrightarrow> \<forall>x\<in>set xs. x = NaN \<Longrightarrow> np_sum xs = NaN"
proof -
  have "foldl (+) a xs = NaN" if "xs \<noteq> []" "\<forall>x\<in>set xs. x = NaN" for a
    using that
  proof (induction xs arbitrary: a)
    case Nil then show ?case by simp
  next
    case (Cons x xs)
    then show ?case by (cases xs) auto
  qed
  then show "xs \<noteq> [] \<Longrightarrow> \<forall>x\<in>set xs. x = NaN \<Longrightarrow> np_sum xs = NaN"
    by (simp add: np_sum_def)
qed

subsection \<open>Rounding\<close>

lemma round_half_even_nonneg: "0 \<le> y \<Longrightarrow> 0 \<le> round_half_even y"
  by (auto simp: round_half_even_def Let_def)

lemma round_half_even_le: "y \<le> of_int k \<Longrightarrow> round_half_even y \<le> k"
proof -
  assume a: "y \<le> of_int k"
  show ?thesis
  proof (cases "y = of_int k")
    case True
    then show ?thesis by (simp add: round_half_even_def Let_def)
  next
    case False
    with a have "y < of_int k" by simp
    then have "\<lfloor>y\<rfloor> < k" by (simp add: floor_less_iff)
    then show ?thesis by (auto simp: round_half_even_def Let_def)
  qed
qed

lemma binade:
  assumes "0 < x"
  shows "2 powr of_int \<lfloor>log 2 x\<rfloor> \<le> x" "x < 2 powr (of_int \<lfloor>log 2 x\<rfloor> + 1)"
proof -
  have "of_int \<lfloor>log 2 x\<rfloor> \<le> log 2 x" by simp
  then have "2 powr of_int \<lfloor>log 2 x\<rfloor> \<le> 2 powr log 2 x"
    by (simp only: powr_le_cancel_iff [of 2] one_less_numeral_iff semiring_norm)
  then show "2 powr of_int \<lfloor>log 2 x\<rfloor> \<le> x" using assms by simp
  have "log 2 x < of_int \<lfloor>log 2 x\<rfloor> + 1" by linarith
  then have "2 powr log 2 x < 2 powr (of_int \<lfloor>log 2 x\<rfloor> + 1)"
    by (simp only: powr_less_cancel_iff [of 2] one_less_numeral_iff semiring_norm)
  then show "x < 2 powr (of_int \<lfloor>log 2 x\<rfloor> + 1)" using assms by simp
qed

lemma round_half_even_ge: "of_int k \<le> y \<Longrightarrow> k \<le> round_half_even y"
proof -
  assume "of_int k \<le> y"
  then have "k \<le> \<lfloor>y\<rfloor>" by (simp add: le_floor_iff)
  then show ?thesis by (auto simp: round_half_even_def Let_def)
qed

lemma round32_nonneg:
  assumes "0 \<le> x"
  shows "0 \<le> round32 x"
proof (cases "x = 0")
  case True
  then show ?thesis by (simp add: round32_def)
next
  case False
  define u :: real where "u = 2 powr (of_int (max \<lfloor>log 2 \<bar>x\<bar>\<rfloor> (- 126)) - 23)"
  have u: "0 < u" by (simp add: u_def)
  have r: "round32 x = of_int (round_half_even (x / u)) * u"
    using False by (simp add: round32_def u_def Let_def)
  have "0 \<le> x / u" using assms u by simp
  then have "0 \<le> round_half_even (x / u)" by (rule round_half_even_nonneg)
  then show ?thesis using r u by simp
qed

text \<open>The cast to \<open>float32\<close> keeps zero and keeps a number that is not negative so.\<close>

lemma astype_float32_zero: "astype_float32 (Fin 0) = Fin 0"
  by (simp add: round32_def)

lemma astype_float32_nonneg: "0 \<le> a \<Longrightarrow> fl_le (Fin 0) (astype_float32 (Fin a))"
  using round32_nonneg [of a] by (auto simp: Let_def signed_inf_def)

text \<open>It does change values: \<open>1 + 2\<^sup>-\<^sup>3\<^sup>0\<close> has no 24-bit significand and becomes 1.\<close>

lemma astype_float32_rounds: "astype_float32 (Fin (1 + 1 / 2 ^ 30)) = Fin 1"
proof -
  define x :: real where "x = 1 + 1 / 2 ^ 30"
  have x: "1 \<le> x" "x < 2" "x \<noteq> 0" by (simp_all add: x_def)
  have "\<lfloor>log 2 \<bar>x\<bar>\<rfloor> = 0"
    using x floor_log_eq_powr_iff [of x 2 0] by simp
  then have r: "round32 x = of_int (round_half_even (x * 2 ^ 23)) / 2 ^ 23"
    using x by (simp add: round32_def Let_def powr_minus_divide powr_realpow [symmetric])
  have xe: "x * 2 ^ 23 = 8388608 + 1 / 128"
    by (simp add: x_def algebra_simps)
  have fl: "\<lfloor>x * 2 ^ 23\<rfloor> = 8388608"
    unfolding xe by (intro floor_unique) simp_all
  have d: "x * 2 ^ 23 - of_int \<lfloor>x * 2 ^ 23\<rfloor> = 1 / 128"
    unfolding fl using xe by simp
  have "round_half_even (x * 2 ^ 23) = \<lfloor>x * 2 ^ 23\<rfloor>"
    unfolding round_half_even_def Let_def d by simp
  then have "round_half_even (x * 2 ^ 23) = 8388608"
    unfolding fl by simp
  with r have "round32 x = 1" by simp
  then show ?thesis
    unfolding x_def [symmetric] by simp
qed

subsection \<open>The fit on a non-empty light curve\<close>

lemma argmax_from_bound:
  "best_i < i \<Longrightarrow> argmax_from best_i best i xs < i + length xs"
proof (induction xs arbitrary: best_i best i)
  case Nil
  then show ?case by simp
next
  case (Cons x xs)
  have a: "argmax_from i x (Suc i) xs < Suc i + length xs"
    using Cons.IH [of i "Suc i" x] by simp
  have b: "argmax_from best_i best (Suc i) xs < Suc i + length xs"
    using Cons.IH [of best_i "Suc i" best] Cons.prems by simp
  show ?case using a b Cons.prems by simp
qed

lemma np_argmax_bound: "np_argmax xs = Inr k \<Longrightarrow> k < length xs"
  using argmax_from_bound [of 0 1]
  by (auto simp: np_argmax_def split: list.splits)

lemma np_argmax_total: "xs \<noteq> [] \<Longrightarrow> \<exists>k. np_argmax xs = Inr k"
  by (cases xs) (auto simp: np_argmax_def)


lemma np_binop_same_length:
  "length xs = length ys \<Longrightarrow> np_binop f xs ys = Inr (map (\<lambda>i. f (xs ! i) (ys ! i)) [0..<length xs])"
  by (auto simp: np_binop_def intro!: nth_equalityI)

lemma get_parameters_shape:
  assumes "popt_shaped cf" "length (p0 c1) = 6" "length (p0 c2) = 6"
    and "get_parameters cf c1 c2 = (calls, Inr pout)"
  shows "length (elements pout) = 6"
  using assms
  by (auto simp: get_parameters_def popt_shaped_def split: sum.splits if_splits)

lemma get_parameters_total:
  assumes "\<forall>c e. cf c = Inl e \<longrightarrow> fit_catches e"
  shows "\<exists>calls pout. get_parameters cf c1 c2 = (calls, Inr pout)"
  using assms
  by (auto simp: get_parameters_def split: sum.splits)

lemma chi_per_degree_eq:
  assumes six: "length (elements pout) = 6"
    and lt: "length targets = length ts" and le: "length obs_errors = length ts"
  shows "chi_per_degree pout ts targets obs_errors =
     Inr (if length ts < 7 then NaN
          else reduced_chi_square
                 (model_inference ts (elements pout ! 0) (elements pout ! 1) (elements pout ! 2)
                    (elements pout ! 3) (elements pout ! 4) (elements pout ! 5))
                 targets obs_errors)"
proof -
  define predictions where "predictions =
    model_inference ts (elements pout ! 0) (elements pout ! 1) (elements pout ! 2)
      (elements pout ! 3) (elements pout ! 4) (elements pout ! 5)"
  have lp: "length predictions = length ts"
    by (simp add: predictions_def model_inference_def)
  have r: "np_binop (-) predictions targets =
      Inr (map (\<lambda>i. predictions ! i - targets ! i) [0..<length ts])"
    using np_binop_same_length [of predictions targets "(-)"] lp lt by simp
  have t: "np_binop (/) (map square (map (\<lambda>i. predictions ! i - targets ! i) [0..<length ts]))
        (map (\<lambda>err. square (err + Fin 0.01)) obs_errors) =
      Inr (map (\<lambda>i. square (predictions ! i - targets ! i) / square (obs_errors ! i + Fin 0.01))
             [0..<length ts])"
    using le by (auto simp: np_binop_def intro!: nth_equalityI)
  have d: "(1 \<le> int (length ts) - 6) = (\<not> length ts < 7)"
    by arith
  have c: "real_of_int (int (length ts) - 6) = real (length ts) - 6"
    by simp
  show ?thesis
    unfolding chi_per_degree_def Let_def predictions_def [symmetric]
    using six r t lp d c by (simp add: reduced_chi_square_def)
qed


lemma fit_nonempty:
  assumes "ts \<noteq> []" "length targets = length ts"
  obtains k mt where "np_argmax targets = Inr k" "k < length ts" "py_max ts = Inr mt"
    "fit cf self ts targets obs_errors =
       (let args = curve_fit_args ts targets (targets ! k) (gamma_guess mt) (trise_guess (ts ! k));
            (calls, r) = get_parameters cf (args (A_guess (targets ! k) / Fin 20))
                           (args (A_guess (targets ! k) / Fin 3))
        in case r of
             Inl e \<Rightarrow> (calls, self, Inl e)
           | Inr pout \<Rightarrow> (calls, self\<lparr>parameters := Some pout\<rparr>,
                          chi_per_degree pout ts targets obs_errors))"
proof -
  from assms have "targets \<noteq> []" by auto
  then obtain k where k: "np_argmax targets = Inr k"
    using np_argmax_total by blast
  then have kl: "k < length ts"
    using np_argmax_bound assms(2) by fastforce
  from assms(1) obtain mt where mt: "py_max ts = Inr mt"
    by (cases ts) (auto simp: py_max_def)
  show thesis
    by (rule that [OF k kl mt]) (simp add: fit_def k mt kl getitem_def Let_def)
qed


text \<open>
  Claim C2. On a non-empty light curve (the docstring of \<open>fit\<close> assumes
  \<open>min(times) == 0\<close>) whose three arrays have one entry per observation, every value
  that \<open>fit\<close> returns is NaN when there are fewer than 7 observations, and otherwise the
  sum of \<open>(prediction - target)\<^sup>2 / (error + 0.01)\<^sup>2\<close> divided by the number of observations
  minus 6, a divisor that is then at least 1; the predictions are those of the six stored
  parameters. \<open>fit\<close> does return when \<open>curve_fit\<close> raises nothing but the exceptions that
  \<open>fit\<close> catches.
\<close>

theorem fit_reduced_chi_square:
  assumes shaped: "popt_shaped cf"
    and ne: "ts \<noteq> []"
    and lt: "length targets = length ts" and le: "length obs_errors = length ts"
  shows "(\<forall>calls self' chi. fit cf self ts targets obs_errors = (calls, self', Inr chi) \<longrightarrow>
            (\<exists>pout. parameters self' = Some pout \<and> length (elements pout) = 6 \<and>
               chi = (if length ts < 7 then NaN
                      else reduced_chi_square
                             (model_inference ts (elements pout ! 0) (elements pout ! 1)
                                (elements pout ! 2) (elements pout ! 3) (elements pout ! 4)
                                (elements pout ! 5))
                             targets obs_errors)))
       \<and> ((\<forall>c e. cf c = Inl e \<longrightarrow> fit_catches e) \<longrightarrow>
            (\<exists>calls self' chi. fit cf self ts targets obs_errors = (calls, self', Inr chi)))"
proof -
  obtain k mt where k: "np_argmax targets = Inr k" "k < length ts" "py_max ts = Inr mt"
    and f: "fit cf self ts targets obs_errors =
       (let args = curve_fit_args ts targets (targets ! k) (gamma_guess mt) (trise_guess (ts ! k));
            (calls, r) = get_parameters cf (args (A_guess (targets ! k) / Fin 20))
                           (args (A_guess (targets ! k) / Fin 3))
        in case r of
             Inl e \<Rightarrow> (calls, self, Inl e)
           | Inr pout \<Rightarrow> (calls, self\<lparr>parameters := Some pout\<rparr>,
                          chi_per_degree pout ts targets obs_errors))"
    by (rule fit_nonempty [OF ne lt])
  define c1 where "c1 = curve_fit_args ts targets (targets ! k) (gamma_guess mt)
      (trise_guess (ts ! k)) (A_guess (targets ! k) / Fin 20)"
  define c2 where "c2 = curve_fit_args ts targets (targets ! k) (gamma_guess mt)
      (trise_guess (ts ! k)) (A_guess (targets ! k) / Fin 3)"
  have p0: "length (p0 c1) = 6" "length (p0 c2) = 6"
    by (simp_all add: c1_def c2_def curve_fit_args_def)
  obtain cs r where g: "get_parameters cf c1 c2 = (cs, r)"
    by (cases "get_parameters cf c1 c2")
  have f': "fit cf self ts targets obs_errors =
      (case r of Inl e \<Rightarrow> (cs, self, Inl e)
       | Inr pout \<Rightarrow> (cs, self\<lparr>parameters := Some pout\<rparr>, chi_per_degree pout ts targets obs_errors))"
    using f g by (simp add: Let_def c1_def c2_def)
  have a: "\<exists>pout. parameters self' = Some pout \<and> length (elements pout) = 6 \<and>
               chi = (if length ts < 7 then NaN
                      else reduced_chi_square
                             (model_inference ts (elements pout ! 0) (elements pout ! 1)
                                (elements pout ! 2) (elements pout ! 3) (elements pout ! 4)
                                (elements pout ! 5))
                             targets obs_errors)"
    if "fit cf self ts targets obs_errors = (calls, self', Inr chi)" for calls self' chi
  proof (cases r)
    case (Inl e)
    with f' that show ?thesis by simp
  next
    case (Inr pout)
    then have six: "length (elements pout) = 6"
      using get_parameters_shape [OF shaped p0] g by simp
    show ?thesis
      using f' that Inr chi_per_degree_eq [OF six lt le] six by auto
  qed
  have b: "\<exists>calls self' chi. fit cf self ts targets obs_errors = (calls, self', Inr chi)"
    if caught: "\<forall>c e. cf c = Inl e \<longrightarrow> fit_catches e"
  proof -
    obtain pout where r: "r = Inr pout"
      using get_parameters_total [OF caught, of c1 c2] g by auto
    then have six: "length (elements pout) = 6"
      using get_parameters_shape [OF shaped p0] g by simp
    show ?thesis
      using f' r chi_per_degree_eq [OF six lt le] by simp
  qed
  show ?thesis using a b by blast
qed


theorem fit_reduced_chi_square_witness:
  "popt_shaped (\<lambda>c. Inr (p0 c)) \<and> [Fin 0, Fin 1] \<noteq> [] \<and>
   length [Fin 3, Fin 6] = length [Fin 0, Fin 1] \<and>
   length [Fin 1, Fin 1] = length [Fin 0, Fin 1] \<and>
   (\<exists>calls self'.
      fit (\<lambda>c. Inr (p0 c)) SNModelScipy_init [Fin 0, Fin 1] [Fin 3, Fin 6] [Fin 1, Fin 1] =
        (calls, self', Inr NaN))"
proof -
  have s: "popt_shaped (\<lambda>c. Inr (p0 c))"
    by (simp add: popt_shaped_def)
  have ne: "[Fin 0, Fin 1] \<noteq> []" by simp
  have lt: "length [Fin 3, Fin 6] = length [Fin 0, Fin 1]" by simp
  have le: "length [Fin 1, Fin 1] = length [Fin 0, Fin 1]" by simp
  note t = fit_reduced_chi_square [OF s ne lt le, of SNModelScipy_init]
  from t obtain calls self' chi where
    r: "fit (\<lambda>c. Inr (p0 c)) SNModelScipy_init [Fin 0, Fin 1] [Fin 3, Fin 6] [Fin 1, Fin 1] =
        (calls, self', Inr chi)"
    by auto
  with t have "chi = NaN" by fastforce
  with r s show ?thesis by auto
qed

lemma reduced_chi_square_NaN:
  assumes "ts \<noteq> []"
  shows "reduced_chi_square (model_inference ts NaN t0 gamma f t_rise t_fall) targets obs_errors = NaN"
proof -
  have "np_sum (map (\<lambda>i. square (model_inference ts NaN t0 gamma f t_rise t_fall ! i - targets ! i)
                          / square (obs_errors ! i + Fin 0.01)) [0..<length ts]) = NaN"
    using assms
    by (intro np_sum_NaN) (auto simp: model_inference_def model_inference_at_NaN)
  then show ?thesis
    by (simp add: reduced_chi_square_def model_inference_def)
qed

text \<open>
  The attempts of \<open>fit\<close> on a non-empty light curve. The first call of \<open>curve_fit\<close> has
  the initial guess and the bounds of the source and the tolerance \<open>A_guess / 20\<close>. When
  it raises \<open>ValueError\<close>, \<open>RuntimeError\<close> or \<open>OptimizeWarning\<close>, exactly one more call
  is made, with the same arguments but the tolerance \<open>A_guess / 3\<close>; when that one raises
  one of the three as well, the stored parameters are six NaN, in a Python list. In every
  other case the stored parameters are the whole array that \<open>curve_fit\<close> returned, or an
  exception of another class leaves \<open>fit\<close> and the object is untouched. A call that
  returns is never repeated.
\<close>

lemma fit_attempts:
  assumes ne: "ts \<noteq> []" and lt: "length targets = length ts"
    and res: "fit cf self ts targets obs_errors = (calls, self', outcome)"
  shows "\<exists>k mt first second. np_argmax targets = Inr k \<and> py_max ts = Inr mt
      \<and> xdata first = ts \<and> ydata first = targets
      \<and> p0 first = [A_guess (targets ! k), Fin (- 5), gamma_guess mt, Fin 0.5,
                      trise_guess (ts ! k), Fin 40]
      \<and> lower_bounds first = [targets ! k / Fin 3, Fin (- 50), Fin 1, Fin 0, Fin 1, Fin 1]
      \<and> upper_bounds first = [targets ! k * Fin 3, Fin 50, Fin 100, Fin 1, Fin 100, Fin 100]
      \<and> ftol first = A_guess (targets ! k) / Fin 20
      \<and> second = first\<lparr>ftol := A_guess (targets ! k) / Fin 3\<rparr>
      \<and> (case cf first of
           Inr pout \<Rightarrow> calls = [first] \<and> parameters self' = Some (NdArray pout)
         | Inl e \<Rightarrow>
             if fit_catches e then
               calls = [first, second] \<and>
               (case cf second of
                  Inr pout \<Rightarrow> parameters self' = Some (NdArray pout)
                | Inl e' \<Rightarrow>
                    if fit_catches e' then
                      parameters self' = Some (PyList [NaN, NaN, NaN, NaN, NaN, NaN])
                    else self' = self \<and> outcome = Inl e')
             else calls = [first] \<and> self' = self \<and> outcome = Inl e)"
proof -
  obtain k mt where k: "np_argmax targets = Inr k" "k < length ts" "py_max ts = Inr mt"
    and f: "fit cf self ts targets obs_errors =
       (let args = curve_fit_args ts targets (targets ! k) (gamma_guess mt) (trise_guess (ts ! k));
            (calls, r) = get_parameters cf (args (A_guess (targets ! k) / Fin 20))
                           (args (A_guess (targets ! k) / Fin 3))
        in case r of
             Inl e \<Rightarrow> (calls, self, Inl e)
           | Inr pout \<Rightarrow> (calls, self\<lparr>parameters := Some pout\<rparr>,
                          chi_per_degree pout ts targets obs_errors))"
    by (rule fit_nonempty [OF ne lt])
  define c1 where "c1 = curve_fit_args ts targets (targets ! k) (gamma_guess mt)
      (trise_guess (ts ! k)) (A_guess (targets ! k) / Fin 20)"
  define c2 where "c2 = curve_fit_args ts targets (targets ! k) (gamma_guess mt)
      (trise_guess (ts ! k)) (A_guess (targets ! k) / Fin 3)"
  have c12: "c2 = c1\<lparr>ftol := A_guess (targets ! k) / Fin 3\<rparr>"
    by (simp add: c1_def c2_def curve_fit_args_def)
  have c1: "xdata c1 = ts" "ydata c1 = targets" "ftol c1 = A_guess (targets ! k) / Fin 20"
    "p0 c1 = [A_guess (targets ! k), Fin (- 5), gamma_guess mt, Fin 0.5,
              trise_guess (ts ! k), Fin 40]"
    "lower_bounds c1 = [targets ! k / Fin 3, Fin (- 50), Fin 1, Fin 0, Fin 1, Fin 1]"
    "upper_bounds c1 = [targets ! k * Fin 3, Fin 50, Fin 100, Fin 1, Fin 100, Fin 100]"
    by (simp_all add: c1_def curve_fit_args_def A_bounds_def)
  have f': "(calls, self', outcome) =
      (case get_parameters cf c1 c2 of
         (cs, Inl e) \<Rightarrow> (cs, self, Inl e)
       | (cs, Inr pout) \<Rightarrow> (cs, self\<lparr>parameters := Some pout\<rparr>,
            chi_per_degree pout ts targets obs_errors))"
    using f res by (simp add: Let_def c1_def c2_def split: prod.splits)
  have "case cf c1 of
           Inr pout \<Rightarrow> calls = [c1] \<and> parameters self' = Some (NdArray pout)
         | Inl e \<Rightarrow>
             if fit_catches e then
               calls = [c1, c2] \<and>
               (case cf c2 of
                  Inr pout \<Rightarrow> parameters self' = Some (NdArray pout)
                | Inl e' \<Rightarrow>
                    if fit_catches e' then
                      parameters self' = Some (PyList [NaN, NaN, NaN, NaN, NaN, NaN])
                    else self' = self \<and> outcome = Inl e')
             else calls = [c1] \<and> self' = self \<and> outcome = Inl e"
    using f' by (auto simp: get_parameters_def split: sum.splits if_splits)
  then show ?thesis
    using k(1,3) c1 c12 by (intro exI [of _ k] exI [of _ mt] exI [of _ c1] exI [of _ c2]) simp
qed

text \<open>
  Claim C3 does not hold of the code. The fit does make the two attempts with the
  tolerances \<open>A_guess / 20\<close> and \<open>A_guess / 3\<close>, and after the second failure it stores
  six NaN; but it stores them as a Python list, and \<open>get_model_parameters\<close>, through
  which both extractors read the parameters, calls \<open>tolist\<close> on it and raises
  \<open>AttributeError\<close>: the six NaN are never reported. Here the light curve is one
  observation of negative flux, as a difference flux can be: the lower bound of the
  amplitude is then above the upper one, and a \<open>curve_fit\<close> that, like scipy's, rejects
  crossed bounds with \<open>ValueError\<close> fails at both attempts.
\<close>

theorem fit_nan_fallback_is_not_reported:
  "fit (\<lambda>c. if fl_less (lower_bounds c ! 0) (upper_bounds c ! 0) then Inr (p0 c)
            else Inl ValueError)
     SNModelScipy_init [Fin 0] [Fin (- 1)] [Fin 1] =
     ([\<lparr>xdata = [Fin 0], ydata = [Fin (- 1)],
        p0 = [Fin (- (1 / 3)), Fin (- 5), Fin 1, Fin 0.5, Fin 1, Fin 40],
        lower_bounds = [Fin (- (1 / 3)), Fin (- 50), Fin 1, Fin 0, Fin 1, Fin 1],
        upper_bounds = [Fin (- 3), Fin 50, Fin 100, Fin 1, Fin 100, Fin 100],
        ftol = Fin (- (1 / 60))\<rparr>,
       \<lparr>xdata = [Fin 0], ydata = [Fin (- 1)],
        p0 = [Fin (- (1 / 3)), Fin (- 5), Fin 1, Fin 0.5, Fin 1, Fin 40],
        lower_bounds = [Fin (- (1 / 3)), Fin (- 50), Fin 1, Fin 0, Fin 1, Fin 1],
        upper_bounds = [Fin (- 3), Fin 50, Fin 100, Fin 1, Fin 100, Fin 100],
        ftol = Fin (- (1 / 9))\<rparr>],
      \<lparr>parameters = Some (PyList [NaN, NaN, NaN, NaN, NaN, NaN])\<rparr>, Inr NaN)
   \<and> get_model_parameters \<lparr>parameters = Some (PyList [NaN, NaN, NaN, NaN, NaN, NaN])\<rparr> =
       Inl AttributeError"
  by (simp add: fit_def np_argmax_def py_max_def py_max2_def py_min2_def getitem_def
      get_parameters_def fit_catches_def A_guess_def A_bounds_def gamma_guess_def
      trise_guess_def curve_fit_args_def SNModelScipy_init_def chi_per_degree_def
      model_inference_def np_binop_def get_model_parameters_def Let_def)

text \<open>
  Claim C10. On a non-empty light curve, when both calls of \<open>curve_fit\<close> were made and
  both raised an exception that \<open>fit\<close> catches, \<open>fit\<close> stores six NaN and returns NaN.
  More generally, whenever \<open>fit\<close> returns with six NaN stored, the returned reduced
  chi-square is NaN.
\<close>

theorem fit_nan_parameters_nan_chi:
  assumes ne: "ts \<noteq> []"
    and lt: "length targets = length ts" and le: "length obs_errors = length ts"
    and res: "fit cf self ts targets obs_errors = (calls, self', outcome)"
  shows "(length calls = 2 \<and> (\<forall>c\<in>set calls. \<exists>e. cf c = Inl e \<and> fit_catches e) \<longrightarrow>
            parameters self' = Some (PyList [NaN, NaN, NaN, NaN, NaN, NaN]) \<and> outcome = Inr NaN)
       \<and> (\<forall>pout chi. parameters self' = Some pout \<and> outcome = Inr chi \<and>
            elements pout = [NaN, NaN, NaN, NaN, NaN, NaN] \<longrightarrow> chi = NaN)"
proof -
  obtain k mt where k: "np_argmax targets = Inr k" "k < length ts" "py_max ts = Inr mt"
    and f: "fit cf self ts targets obs_errors =
       (let args = curve_fit_args ts targets (targets ! k) (gamma_guess mt) (trise_guess (ts ! k));
            (calls, r) = get_parameters cf (args (A_guess (targets ! k) / Fin 20))
                           (args (A_guess (targets ! k) / Fin 3))
        in case r of
             Inl e \<Rightarrow> (calls, self, Inl e)
           | Inr pout \<Rightarrow> (calls, self\<lparr>parameters := Some pout\<rparr>,
                          chi_per_degree pout ts targets obs_errors))"
    by (rule fit_nonempty [OF ne lt])
  define c1 where "c1 = curve_fit_args ts targets (targets ! k) (gamma_guess mt)
      (trise_guess (ts ! k)) (A_guess (targets ! k) / Fin 20)"
  define c2 where "c2 = curve_fit_args ts targets (targets ! k) (gamma_guess mt)
      (trise_guess (ts ! k)) (A_guess (targets ! k) / Fin 3)"
  have f': "(calls, self', outcome) =
      (case get_parameters cf c1 c2 of
         (cs, Inl e) \<Rightarrow> (cs, self, Inl e)
       | (cs, Inr pout) \<Rightarrow> (cs, self\<lparr>parameters := Some pout\<rparr>,
            chi_per_degree pout ts targets obs_errors))"
    using f res by (simp add: Let_def c1_def c2_def split: prod.splits)
  have nan_chi: "chi_per_degree pout ts targets obs_errors = Inr NaN"
    if "elements pout = [NaN, NaN, NaN, NaN, NaN, NaN]" for pout
  proof -
    have six: "length (elements pout) = 6" using that by simp
    show ?thesis
      using chi_per_degree_eq [OF six lt le] that reduced_chi_square_NaN [OF ne]
      by simp
  qed
  have a: "parameters self' = Some (PyList [NaN, NaN, NaN, NaN, NaN, NaN]) \<and> outcome = Inr NaN"
    if "length calls = 2" "\<forall>c\<in>set calls. \<exists>e. cf c = Inl e \<and> fit_catches e"
    using f' that nan_chi [of "PyList [NaN, NaN, NaN, NaN, NaN, NaN]"]
    by (auto simp: get_parameters_def split: sum.splits if_splits)
  have b: "chi = NaN"
    if "parameters self' = Some pout" "outcome = Inr chi"
      "elements pout = [NaN, NaN, NaN, NaN, NaN, NaN]" for pout chi
  proof (cases "get_parameters cf c1 c2")
    case (Pair cs r)
    show ?thesis
    proof (cases r)
      case (Inl e)
      with f' Pair that show ?thesis by simp
    next
      case (Inr pout')
      with f' Pair that have "pout' = pout" "chi_per_degree pout' ts targets obs_errors = Inr chi"
        by auto
      with nan_chi [OF that(3)] show ?thesis by simp
    qed
  qed
  show ?thesis using a b by blast
qed

theorem fit_nan_parameters_nan_chi_witness:
  "[Fin 0, Fin 1] \<noteq> [] \<and> length [Fin 3, Fin 6] = length [Fin 0, Fin 1] \<and>
   length [Fin 1, Fin 1] = length [Fin 0, Fin 1] \<and>
   fit (\<lambda>c. Inl RuntimeError) SNModelScipy_init [Fin 0, Fin 1] [Fin 3, Fin 6] [Fin 1, Fin 1] =
     ([curve_fit_args [Fin 0, Fin 1] [Fin 3, Fin 6] (Fin 6) (Fin 1) (Fin 1) (Fin (9 / 10)),
       curve_fit_args [Fin 0, Fin 1] [Fin 3, Fin 6] (Fin 6) (Fin 1) (Fin 1) (Fin 6)],
      \<lparr>parameters = Some (PyList [NaN, NaN, NaN, NaN, NaN, NaN])\<rparr>, Inr NaN)"
proof -
  have ne: "[Fin 0, Fin 1] \<noteq> []" by simp
  have lt: "length [Fin 3, Fin 6] = length [Fin 0, Fin 1]" by simp
  have le: "length [Fin 1, Fin 1] = length [Fin 0, Fin 1]" by simp
  have res: "fit (\<lambda>c. Inl RuntimeError) SNModelScipy_init [Fin 0, Fin 1] [Fin 3, Fin 6] [Fin 1, Fin 1] =
     ([curve_fit_args [Fin 0, Fin 1] [Fin 3, Fin 6] (Fin 6) (Fin 1) (Fin 1) (Fin (9 / 10)),
       curve_fit_args [Fin 0, Fin 1] [Fin 3, Fin 6] (Fin 6) (Fin 1) (Fin 1) (Fin 6)],
      \<lparr>parameters = Some (PyList [NaN, NaN, NaN, NaN, NaN, NaN])\<rparr>,
      chi_per_degree (PyList [NaN, NaN, NaN, NaN, NaN, NaN]) [Fin 0, Fin 1] [Fin 3, Fin 6]
        [Fin 1, Fin 1])"
    by (simp add: fit_def np_argmax_def isnan_def py_max_def py_max2_def py_min2_def getitem_def
        get_parameters_def fit_catches_def A_guess_def A_bounds_def gamma_guess_def
        trise_guess_def SNModelScipy_init_def Let_def)
  from fit_nan_parameters_nan_chi [OF ne lt le res]
  have "chi_per_degree (PyList [NaN, NaN, NaN, NaN, NaN, NaN]) [Fin 0, Fin 1] [Fin 3, Fin 6]
        [Fin 1, Fin 1] = Inr NaN"
    by (simp add: fit_catches_def)
  with res show ?thesis by simp
qed

lemma fit_both_fail:
  assumes ne: "ts \<noteq> []"
    and lt: "length targets = length ts" and le: "length obs_errors = length ts"
    and fail: "\<forall>c. \<exists>e. cf c = Inl e \<and> fit_catches e"
  shows "\<exists>calls. fit cf self ts targets obs_errors =
           (calls, self\<lparr>parameters := Some (PyList [NaN, NaN, NaN, NaN, NaN, NaN])\<rparr>, Inr NaN)"
proof -
  obtain k mt where k: "np_argmax targets = Inr k" "k < length ts" "py_max ts = Inr mt"
    and f: "fit cf self ts targets obs_errors =
       (let args = curve_fit_args ts targets (targets ! k) (gamma_guess mt) (trise_guess (ts ! k));
            (calls, r) = get_parameters cf (args (A_guess (targets ! k) / Fin 20))
                           (args (A_guess (targets ! k) / Fin 3))
        in case r of
             Inl e \<Rightarrow> (calls, self, Inl e)
           | Inr pout \<Rightarrow> (calls, self\<lparr>parameters := Some pout\<rparr>,
                          chi_per_degree pout ts targets obs_errors))"
    by (rule fit_nonempty [OF ne lt])
  have g: "\<exists>calls. get_parameters cf c1 c2 = (calls, Inr (PyList [NaN, NaN, NaN, NaN, NaN, NaN]))"
    for c1 c2
  proof -
    from fail obtain e1 e2 where "cf c1 = Inl e1" "fit_catches e1" "cf c2 = Inl e2" "fit_catches e2"
      by metis
    then show ?thesis by (simp add: get_parameters_def)
  qed
  have six: "length (elements (PyList [NaN, NaN, NaN, NaN, NaN, NaN])) = 6" by simp
  have chi: "chi_per_degree (PyList [NaN, NaN, NaN, NaN, NaN, NaN]) ts targets obs_errors = Inr NaN"
    using chi_per_degree_eq [OF six lt le] reduced_chi_square_NaN [OF ne] by simp
  obtain calls where
    "get_parameters cf
        (curve_fit_args ts targets (targets ! k) (gamma_guess mt) (trise_guess (ts ! k))
           (A_guess (targets ! k) / Fin 20))
        (curve_fit_args ts targets (targets ! k) (gamma_guess mt) (trise_guess (ts ! k))
           (A_guess (targets ! k) / Fin 3)) =
      (calls, Inr (PyList [NaN, NaN, NaN, NaN, NaN, NaN]))"
    using g by blast
  then show ?thesis
    using f chi by (simp add: Let_def)
qed


subsection \<open>The extractor of the supernova parametric model\<close>

lemma get_parameters_first_call:
  "get_parameters cf c1 c2 = (calls, r) \<Longrightarrow> calls \<noteq> [] \<and> hd calls = c1"
  by (auto simp: get_parameters_def split: sum.splits if_splits)

lemma fit_first_call:
  assumes ne: "ts \<noteq> []" and lt: "length targets = length ts"
    and res: "fit cf self ts targets obs_errors = (calls, self', r)"
  shows "calls \<noteq> [] \<and> xdata (hd calls) = ts \<and> ydata (hd calls) = targets"
proof -
  obtain k mt where k: "np_argmax targets = Inr k" "k < length ts" "py_max ts = Inr mt"
    and f: "fit cf self ts targets obs_errors =
       (let args = curve_fit_args ts targets (targets ! k) (gamma_guess mt) (trise_guess (ts ! k));
            (calls, r) = get_parameters cf (args (A_guess (targets ! k) / Fin 20))
                           (args (A_guess (targets ! k) / Fin 3))
        in case r of
             Inl e \<Rightarrow> (calls, self, Inl e)
           | Inr pout \<Rightarrow> (calls, self\<lparr>parameters := Some pout\<rparr>,
                          chi_per_degree pout ts targets obs_errors))"
    by (rule fit_nonempty [OF ne lt])
  define c1 where "c1 = curve_fit_args ts targets (targets ! k) (gamma_guess mt)
      (trise_guess (ts ! k)) (A_guess (targets ! k) / Fin 20)"
  define c2 where "c2 = curve_fit_args ts targets (targets ! k) (gamma_guess mt)
      (trise_guess (ts ! k)) (A_guess (targets ! k) / Fin 3)"
  obtain cs r' where g: "get_parameters cf c1 c2 = (cs, r')"
    by (cases "get_parameters cf c1 c2")
  have "calls = cs"
    using f res g by (auto simp: Let_def c1_def c2_def split: sum.splits)
  moreover have "cs \<noteq> [] \<and> hd cs = c1"
    using get_parameters_first_call [OF g] .
  moreover have "xdata c1 = ts" "ydata c1 = targets"
    by (simp_all add: c1_def curve_fit_args_def)
  ultimately show ?thesis by simp
qed

lemma np_minimum_finite: "np_minimum (Fin a) (Fin b) = Fin (if b < a then b else a)"
  by (simp add: np_minimum_def isnan_def)

lemma foldl_np_minimum_finite:
  assumes "\<forall>x\<in>set xs. isfinite x"
  shows "\<exists>m. foldl np_minimum (Fin a) xs = Fin m \<and> Fin m \<in> set (Fin a # xs)
           \<and> m \<le> a \<and> (\<forall>x\<in>set xs. fl_le (Fin m) x)"
  using assms
proof (induction xs arbitrary: a)
  case Nil
  then show ?case by simp
next
  case (Cons x xs)
  then obtain b where b: "x = Fin b" by (cases x) auto
  show ?case
  proof (cases "b < a")
    case True
    from Cons.IH [of b] Cons.prems obtain m where
      m: "foldl np_minimum (Fin b) xs = Fin m" "Fin m \<in> set (Fin b # xs)" "m \<le> b"
        "\<forall>x\<in>set xs. fl_le (Fin m) x"
      by auto
    with True b show ?thesis
      by (auto simp: np_minimum_finite)
  next
    case False
    from Cons.IH [of a] Cons.prems obtain m where
      m: "foldl np_minimum (Fin a) xs = Fin m" "Fin m \<in> set (Fin a # xs)" "m \<le> a"
        "\<forall>x\<in>set xs. fl_le (Fin m) x"
      by auto
    with False b show ?thesis
      by (auto simp: np_minimum_finite)
  qed
qed

lemma np_min_finite:
  assumes "xs \<noteq> []" "\<forall>x\<in>set xs. isfinite x"
  shows "\<exists>m. np_min xs = Inr (Fin m) \<and> Fin m \<in> set xs \<and> (\<forall>x\<in>set xs. fl_le (Fin m) x)"
proof -
  from assms obtain x rest where xs: "xs = x # rest" by (cases xs) auto
  with assms obtain a where a: "x = Fin a" by (cases x) auto
  from foldl_np_minimum_finite [of rest a] assms xs obtain m where
    "foldl np_minimum (Fin a) rest = Fin m" "Fin m \<in> set (Fin a # rest)" "m \<le> a"
    "\<forall>x\<in>set rest. fl_le (Fin m) x"
    by auto
  then show ?thesis
    using xs a by (auto simp: np_min_def)
qed

lemma np_min_total: "xs \<noteq> [] \<Longrightarrow> \<exists>m. np_min xs = Inr m"
  by (cases xs) (auto simp: np_min_def)

lemma mag_to_flux_finite: "mag_to_flux (Fin m) = Fin (10 powr (- (m + 48.6) / 2.5 + 26))"
  by (simp add: mag_to_flux_def minus_fl_def)


lemma aux_function_with_band:
  assumes band: "band \<in> set (map fid oid_detections)"
    and rows: "rows = dropna (filter (\<lambda>d. fid d = band) oid_detections)"
    and m: "np_min (map mjd rows) = Inr min_time"
  shows "aux_function cf sn_model band oid_detections =
     (case fit cf sn_model (map (\<lambda>d. astype_float32 (mjd d - min_time)) rows)
             (map (\<lambda>d. astype_float32 (mag_to_flux (magpsf d))) rows)
             (map (\<lambda>d. mag_to_flux (magpsf d - sigmapsf d) - mag_to_flux (magpsf d)) rows) of
        (calls, sn_model', Inl e) \<Rightarrow> (calls, sn_model', Inl e)
      | (calls, sn_model', Inr fit_error) \<Rightarrow>
          (case get_model_parameters sn_model' of
             Inl e \<Rightarrow> (calls, sn_model', Inl e)
           | Inr model_parameters \<Rightarrow>
               if length (model_parameters @ [fit_error]) = length sn_get_features_keys
               then (calls, sn_model', Inr (model_parameters @ [fit_error]))
               else (calls, sn_model', Inl ValueError)))"
proof -
  have e: "map (\<lambda>(m, e, target). mag_to_flux (m - e) - target)
        (zip (map magpsf rows) (zip (map sigmapsf rows) (map mag_to_flux (map magpsf rows)))) =
      map (\<lambda>d. mag_to_flux (magpsf d - sigmapsf d) - mag_to_flux (magpsf d)) rows"
    by (induction rows) auto
  show ?thesis
    using band m e unfolding aux_function_def rows [symmetric] Let_def
    by (simp add: comp_def)
qed

text \<open>
  Claim C8. For an object with detections in the band that survive \<open>dropna\<close>, the
  times are shifted by their minimum and every magnitude is converted by \<open>mag_to_flux\<close>,
  which for a finite magnitude \<open>m\<close> is \<open>10 ^ (-(m + 48.6) / 2.5 + 26)\<close>; the first call
  of \<open>curve_fit\<close> (there always is one) receives these shifted times and these fluxes,
  each cast to \<open>float32\<close>. When the times are finite, the earliest shifted time is zero
  and no shifted time is negative, before the cast and after it.
\<close>

theorem aux_function_flux_and_shifted_times:
  assumes band: "band \<in> set (map fid oid_detections)"
    and rows: "rows = dropna (filter (\<lambda>d. fid d = band) oid_detections)"
    and ne: "rows \<noteq> []"
    and res: "aux_function cf sn_model band oid_detections = (calls, sn_model', r)"
  shows "\<exists>min_time shifted fluxes. np_min (map mjd rows) = Inr min_time \<and> calls \<noteq> []
      \<and> shifted = map (\<lambda>d. mjd d - min_time) rows
      \<and> fluxes = map (\<lambda>d. mag_to_flux (magpsf d)) rows
      \<and> (\<forall>m. mag_to_flux (Fin m) = Fin (10 powr (- (m + 48.6) / 2.5 + 26)))
      \<and> xdata (hd calls) = map astype_float32 shifted
      \<and> ydata (hd calls) = map astype_float32 fluxes
      \<and> ((\<forall>d\<in>set rows. isfinite (mjd d)) \<longrightarrow>
            Fin 0 \<in> set shifted \<and> (\<forall>t\<in>set shifted. fl_le (Fin 0) t) \<and>
            Fin 0 \<in> set (xdata (hd calls)) \<and> (\<forall>t\<in>set (xdata (hd calls)). fl_le (Fin 0) t))"
proof -
  from ne obtain min_time where m: "np_min (map mjd rows) = Inr min_time"
    using np_min_total [of "map mjd rows"] by auto
  define shifted where "shifted = map (\<lambda>d. mjd d - min_time) rows"
  define fluxes where "fluxes = map (\<lambda>d. mag_to_flux (magpsf d)) rows"
  define ts where "ts = map (\<lambda>d. astype_float32 (mjd d - min_time)) rows"
  define targets where "targets = map (\<lambda>d. astype_float32 (mag_to_flux (magpsf d))) rows"
  define errors where
    "errors = map (\<lambda>d. mag_to_flux (magpsf d - sigmapsf d) - mag_to_flux (magpsf d)) rows"
  have casts: "ts = map astype_float32 shifted" "targets = map astype_float32 fluxes"
    by (simp_all add: ts_def targets_def shifted_def fluxes_def comp_def)
  obtain cs sn' fr where f: "fit cf sn_model ts targets errors = (cs, sn', fr)"
    by (metis prod_cases3)
  have tne: "ts \<noteq> []" and tl: "length targets = length ts"
    using ne by (simp_all add: ts_def targets_def)
  have "calls = cs"
    using aux_function_with_band [OF band rows m, of cf sn_model] res f
    unfolding ts_def [symmetric] targets_def [symmetric] errors_def [symmetric]
    by (auto split: sum.splits if_splits)
  with fit_first_call [OF tne tl f]
  have c: "calls \<noteq> []" "xdata (hd calls) = ts" "ydata (hd calls) = targets"
    by simp_all
  have z: "Fin 0 \<in> set shifted \<and> (\<forall>t\<in>set shifted. fl_le (Fin 0) t) \<and>
      Fin 0 \<in> set ts \<and> (\<forall>t\<in>set ts. fl_le (Fin 0) t)"
    if fin: "\<forall>d\<in>set rows. isfinite (mjd d)"
  proof -
    from fin ne obtain a where
      a: "np_min (map mjd rows) = Inr (Fin a)" "Fin a \<in> set (map mjd rows)"
        "\<forall>x\<in>set (map mjd rows). fl_le (Fin a) x"
      using np_min_finite [of "map mjd rows"] by auto
    with m have mt: "min_time = Fin a" by simp
    from a(2) obtain d where d: "d \<in> set rows" "mjd d = Fin a" by auto
    then have d0: "mjd d - min_time = Fin 0"
      by (simp add: mt minus_fl_def)
    with d have s0: "Fin 0 \<in> set shifted"
      unfolding shifted_def by (metis (mono_tags, lifting) image_eqI list.set_map)
    then have "astype_float32 (Fin 0) \<in> astype_float32 ` set shifted"
      by (rule imageI)
    then have t0: "Fin 0 \<in> set ts"
      unfolding casts by (simp only: set_map astype_float32_zero)
    have diff: "\<exists>b. a \<le> b \<and> mjd d' - min_time = Fin (b - a)" if "d' \<in> set rows" for d'
    proof -
      from that fin obtain b where b: "mjd d' = Fin b" by (cases "mjd d'") auto
      with a(3) that have "a \<le> b" by force
      with b mt show ?thesis by (auto simp: minus_fl_def)
    qed
    have s: "fl_le (Fin 0) t" if "t \<in> set shifted" for t
    proof -
      from that obtain d' where "d' \<in> set rows" "t = mjd d' - min_time"
        by (auto simp: shifted_def)
      with diff show ?thesis by fastforce
    qed
    have t: "fl_le (Fin 0) t" if "t \<in> set ts" for t
    proof -
      from that obtain d' where d': "d' \<in> set rows" "t = astype_float32 (mjd d' - min_time)"
        by (auto simp: ts_def)
      from diff [OF d'(1)] obtain b where "a \<le> b" "mjd d' - min_time = Fin (b - a)"
        by blast
      with d'(2) astype_float32_nonneg [of "b - a"] show ?thesis by simp
    qed
    from s0 t0 s t show ?thesis by blast
  qed
  show ?thesis
    using m c z mag_to_flux_finite casts
    by (intro exI [of _ min_time] exI [of _ shifted] exI [of _ fluxes])
      (simp add: shifted_def fluxes_def)
qed

theorem aux_function_flux_and_shifted_times_witness:
  "\<exists>calls sn_model' r.
     aux_function (\<lambda>c. Inl ValueError) SNModelScipy_init 1
       [\<lparr>oid = ''ZTF18a'', fid = 1, mjd = Fin (4 + 1 / 2 ^ 30), magpsf = Fin 18,
          sigmapsf = Fin 0.1, magpsf_ml = Fin 18, sigmapsf_ml = Fin 0.1\<rparr>,
        \<lparr>oid = ''ZTF18a'', fid = 1, mjd = Fin 3, magpsf = Fin 19, sigmapsf = Fin 0.2,
          magpsf_ml = Fin 19, sigmapsf_ml = Fin 0.2\<rparr>] = (calls, sn_model', r)
     \<and> xdata (hd calls) = [Fin 1, Fin 0]
     \<and> ydata (hd calls) =
         [astype_float32 (mag_to_flux (Fin 18)), astype_float32 (mag_to_flux (Fin 19))]
     \<and> mag_to_flux (Fin 18) = Fin (10 powr (- (18 + 48.6) / 2.5 + 26))"
proof -
  define dets where "dets =
       [\<lparr>oid = ''ZTF18a'', fid = 1, mjd = Fin (4 + 1 / 2 ^ 30), magpsf = Fin 18,
          sigmapsf = Fin 0.1, magpsf_ml = Fin 18, sigmapsf_ml = Fin 0.1\<rparr>,
        \<lparr>oid = ''ZTF18a'', fid = 1, mjd = Fin 3, magpsf = Fin 19, sigmapsf = Fin 0.2,
          magpsf_ml = Fin 19, sigmapsf_ml = Fin 0.2\<rparr>]"
  obtain calls sn_model' r where
    res: "aux_function (\<lambda>c. Inl ValueError) SNModelScipy_init 1 dets = (calls, sn_model', r)"
    by (metis prod_cases3)
  have band: "1 \<in> set (map fid dets)"
    by (simp add: dets_def)
  have rows: "dets = dropna (filter (\<lambda>d. fid d = 1) dets)"
    by (simp add: dets_def dropna_def isnan_def)
  have ne: "dets \<noteq> []"
    by (simp add: dets_def)
  have m: "np_min (map mjd dets) = Inr (Fin 3)"
    by (simp add: dets_def np_min_def np_minimum_def isnan_def)
  have sh: "map (\<lambda>d. mjd d - Fin 3) dets = [Fin (1 + 1 / 2 ^ 30), Fin 0]"
    by (simp add: dets_def minus_fl_def)
  from aux_function_flux_and_shifted_times [OF band rows ne res] m
  have x: "xdata (hd calls) = map astype_float32 (map (\<lambda>d. mjd d - Fin 3) dets)"
    and y: "ydata (hd calls) = map astype_float32 (map (\<lambda>d. mag_to_flux (magpsf d)) dets)"
    and f: "mag_to_flux (Fin 18) = Fin (10 powr (- (18 + 48.6) / 2.5 + 26))"
    by auto
  have x': "xdata (hd calls) = [Fin 1, Fin 0]"
    unfolding x sh by (simp only: list.map astype_float32_rounds astype_float32_zero)
  have y': "ydata (hd calls) =
      [astype_float32 (mag_to_flux (Fin 18)), astype_float32 (mag_to_flux (Fin 19))]"
    unfolding y by (simp add: dets_def del: astype_float32.simps)
  from res x' y' f show ?thesis
    unfolding dets_def by blast
qed

text \<open>
  Claim C1 does not hold of \<open>SNParametricModelExtractor\<close>. An object whose rows in the
  band all have a NaN is left without rows by \<open>dropna\<close>, and \<open>np.min\<close> of the empty
  array raises \<open>ValueError\<close>, whatever \<open>curve_fit\<close> does; the exception leaves the
  whole call, and the object without the band gets no row either. When both calls of
  \<open>curve_fit\<close> fail, \<open>self.parameters\<close> is a Python list and \<open>get_model_parameters\<close>
  raises \<open>AttributeError\<close>.
\<close>

theorem sn_extractor_batch_aborts:
  "(\<forall>cf sn_model.
      sn_compute_feature_in_one_band cf sn_model
        [\<lparr>oid = ''ZTF18a'', fid = 2, mjd = Fin 0, magpsf = Fin 18, sigmapsf = Fin 0.1,
           magpsf_ml = Fin 18, sigmapsf_ml = Fin 0.1\<rparr>,
         \<lparr>oid = ''ZTF18b'', fid = 1, mjd = Fin 1, magpsf = NaN, sigmapsf = Fin 0.1,
           magpsf_ml = NaN, sigmapsf_ml = Fin 0.1\<rparr>] 1 = ([], sn_model, Inl ValueError))
   \<and> (\<exists>calls sn_model'.
        sn_compute_feature_in_one_band (\<lambda>c. Inl RuntimeError) SNModelScipy_init
          [\<lparr>oid = ''ZTF18a'', fid = 1, mjd = Fin 0, magpsf = Fin 18, sigmapsf = Fin 0.1,
             magpsf_ml = Fin 18, sigmapsf_ml = Fin 0.1\<rparr>] 1 =
          (calls, sn_model', Inl AttributeError))"
proof (intro conjI allI)
  fix cf sn_model
  show "sn_compute_feature_in_one_band cf sn_model
        [\<lparr>oid = ''ZTF18a'', fid = 2, mjd = Fin 0, magpsf = Fin 18, sigmapsf = Fin 0.1,
           magpsf_ml = Fin 18, sigmapsf_ml = Fin 0.1\<rparr>,
         \<lparr>oid = ''ZTF18b'', fid = 1, mjd = Fin 1, magpsf = NaN, sigmapsf = Fin 0.1,
           magpsf_ml = NaN, sigmapsf_ml = Fin 0.1\<rparr>] 1 = ([], sn_model, Inl ValueError)"
    by (simp add: sn_compute_feature_in_one_band_def groupby_oid_def aux_function_def
        nan_series_in_band_def dropna_def isnan_def np_min_def)
next
  define d where "d = \<lparr>oid = ''ZTF18a'', fid = 1, mjd = Fin 0, magpsf = Fin 18,
      sigmapsf = Fin 0.1, magpsf_ml = Fin 18, sigmapsf_ml = Fin 0.1\<rparr>"
  have band: "1 \<in> set (map fid [d])" by (simp add: d_def)
  have rows: "[d] = dropna (filter (\<lambda>d. fid d = 1) [d])"
    by (simp add: d_def dropna_def isnan_def)
  have m: "np_min (map mjd [d]) = Inr (Fin 0)"
    by (simp add: d_def np_min_def)
  have fail: "\<forall>c. \<exists>e. (\<lambda>c. Inl RuntimeError) c = Inl e \<and> fit_catches e"
    by (simp add: fit_catches_def)
  obtain calls where
    f: "fit (\<lambda>c. Inl RuntimeError) SNModelScipy_init
          (map (\<lambda>d. astype_float32 (mjd d - Fin 0)) [d])
          (map (\<lambda>d. astype_float32 (mag_to_flux (magpsf d))) [d])
          (map (\<lambda>d. mag_to_flux (magpsf d - sigmapsf d) - mag_to_flux (magpsf d)) [d]) =
        (calls, SNModelScipy_init\<lparr>parameters := Some (PyList [NaN, NaN, NaN, NaN, NaN, NaN])\<rparr>,
         Inr NaN)"
    using fit_both_fail [OF _ _ _ fail, of "map (\<lambda>d. astype_float32 (mjd d - Fin 0)) [d]"
        "map (\<lambda>d. astype_float32 (mag_to_flux (magpsf d))) [d]"
        "map (\<lambda>d. mag_to_flux (magpsf d - sigmapsf d) - mag_to_flux (magpsf d)) [d]"
        SNModelScipy_init]
    by auto
  have "aux_function (\<lambda>c. Inl RuntimeError) SNModelScipy_init 1 [d] =
      (calls, SNModelScipy_init\<lparr>parameters := Some (PyList [NaN, NaN, NaN, NaN, NaN, NaN])\<rparr>,
       Inl AttributeError)"
    using aux_function_with_band [OF band rows m, of "\<lambda>c. Inl RuntimeError" SNModelScipy_init] f
    by (simp add: get_model_parameters_def)
  then show "\<exists>calls sn_model'.
        sn_compute_feature_in_one_band (\<lambda>c. Inl RuntimeError) SNModelScipy_init
          [\<lparr>oid = ''ZTF18a'', fid = 1, mjd = Fin 0, magpsf = Fin 18, sigmapsf = Fin 0.1,
             magpsf_ml = Fin 18, sigmapsf_ml = Fin 0.1\<rparr>] 1 =
          (calls, sn_model', Inl AttributeError)"
    by (simp add: sn_compute_feature_in_one_band_def groupby_oid_def d_def)
qed

subsection \<open>The tables of the two extractors\<close>

lemma unique_from_set: "set (unique_from seen xs) = set xs - set seen"
  by (induction xs arbitrary: seen) auto

lemma unique_from_distinct: "distinct (unique_from seen xs)"
  by (induction xs arbitrary: seen) (auto simp: unique_from_set)

lemma unique_set [simp]: "set (unique xs) = set xs"
  by (simp add: unique_def unique_from_set)

lemma unique_distinct [simp]: "distinct (unique xs)"
  by (simp add: unique_def unique_from_distinct)

lemma unique_Nil_iff [simp]: "unique xs = [] \<longleftrightarrow> xs = []"
  by (metis unique_set set_empty)

lemma harmonics_compute_with_periods:
  assumes "get_periods pe kwargs dets = (events, Inr periods)"
  shows "harmonics_compute_feature_in_one_band pe pinv n dets band kwargs =
     (if dets = [] then (events, Inl ValueError)
      else (events @ concat (map (\<lambda>i. fst (harmonics_object pinv n periods band dets i))
                               (unique (map oid dets))),
            Inr (map (\<lambda>i. (i, snd (harmonics_object pinv n periods band dets i)))
                   (unique (map oid dets)))))"
proof -
  have z: "zip xs (map f xs) = map (\<lambda>i. (i, f i)) xs" for xs :: "string list" and f :: "string \<Rightarrow> fl list"
    by (induction xs) auto
  show ?thesis
    using assms
    by (simp add: harmonics_compute_feature_in_one_band_def Let_def comp_def z)
qed

lemma harmonics_compute_no_periods:
  assumes "get_periods pe kwargs dets = (events, Inl e)"
  shows "harmonics_compute_feature_in_one_band pe pinv n dets band kwargs = (events, Inl e)"
  using assms by (simp add: harmonics_compute_feature_in_one_band_def)


lemma groupby_oid_keys:
  "distinct (map fst (groupby_oid dets))" "set (map fst (groupby_oid dets)) = set (map oid dets)"
  by (simp_all add: groupby_oid_def comp_def)

lemma apply_aux_function_index:
  "apply_aux_function cf sn band groups = (calls, sn', Inr table) \<Longrightarrow>
   map fst table = map fst groups"
proof (induction groups arbitrary: sn calls sn' table)
  case Nil
  then show ?case by simp
next
  case (Cons g groups)
  obtain key rows where g: "g = (key, rows)" by (cases g)
  obtain c1 s1 r1 where a: "aux_function cf sn band rows = (c1, s1, r1)"
    by (metis prod_cases3)
  show ?case
  proof (cases r1)
    case (Inl e)
    with Cons.prems g a show ?thesis by simp
  next
    case (Inr row)
    obtain c2 s2 r2 where b: "apply_aux_function cf s1 band groups = (c2, s2, r2)"
      by (metis prod_cases3)
    show ?thesis
    proof (cases r2)
      case (Inl e)
      with Cons.prems g a Inr b show ?thesis by simp
    next
      case (Inr table')
      with Cons.prems g a \<open>r1 = Inr row\<close> b have "table = (key, row) # table'"
        by simp
      with Cons.IH [OF b [unfolded Inr]] g show ?thesis by simp
    qed
  qed
qed


text \<open>
  A table that \<open>SNParametricModelExtractor\<close> returns has one row for each distinct
  object id. It returns none when the pass for one object raises.
\<close>

lemma sn_table_index:
  assumes "sn_compute_feature_in_one_band cf sn_model dets band = (calls, sn_model', Inr table)"
  shows "distinct (map fst table)" "set (map fst table) = set (map oid dets)"
proof -
  from assms have "map fst table = map fst (groupby_oid dets)"
    using apply_aux_function_index by (simp add: sn_compute_feature_in_one_band_def)
  then show "distinct (map fst table)" "set (map fst table) = set (map oid dets)"
    using groupby_oid_keys [of dets] by simp_all
qed



lemma map_of_graph:
  "map_of (map (\<lambda>i. (i, f i)) xs) k = (if k \<in> set xs then Some (f k) else None)"
  by (induction xs) auto

lemma harmonics_object_missing_band:
  assumes "band \<notin> set (map fid (filter (\<lambda>d. oid d = object_id) dets))"
  shows "harmonics_object pinv n periods band dets object_id =
     ([Log INFO (MissingBand object_id band)],
      replicate (length (harmonics_get_features_keys n)) NaN)"
  using assms by (simp add: harmonics_object_def)

lemma aux_function_missing_band_keys:
  "band \<notin> set (map fid rows) \<Longrightarrow>
   aux_function cf sn_model band rows =
     ([], sn_model, Inr (replicate (length sn_get_features_keys) NaN))"
  by (simp add: aux_function_def nan_series_in_band_def map_replicate_const)

lemma apply_aux_function_missing_band:
  assumes "apply_aux_function cf sn band groups = (calls, sn', Inr table)"
    and "(key, rows) \<in> set groups" and "band \<notin> set (map fid rows)"
    and "distinct (map fst groups)"
  shows "map_of table key = Some (replicate (length sn_get_features_keys) NaN)"
  using assms
proof (induction groups arbitrary: sn calls sn' table)
  case Nil
  then show ?case by simp
next
  case (Cons g groups)
  obtain k rs where g: "g = (k, rs)" by (cases g)
  obtain c1 s1 r1 where a: "aux_function cf sn band rs = (c1, s1, r1)"
    by (metis prod_cases3)
  show ?case
  proof (cases r1)
    case (Inl e)
    with Cons.prems g a show ?thesis by simp
  next
    case (Inr row)
    obtain c2 s2 r2 where b: "apply_aux_function cf s1 band groups = (c2, s2, r2)"
      by (metis prod_cases3)
    show ?thesis
    proof (cases r2)
      case (Inl e)
      with Cons.prems g a Inr b show ?thesis by simp
    next
      case (Inr table')
      with Cons.prems(1) g a \<open>r1 = Inr row\<close> b have t: "table = (k, row) # table'"
        by simp
      show ?thesis
      proof (cases "(key, rows) = (k, rs)")
        case True
        with a \<open>r1 = Inr row\<close> Cons.prems(3) aux_function_missing_band_keys [of band rs cf sn]
        have "row = replicate (length sn_get_features_keys) NaN" by simp
        with t True show ?thesis by simp
      next
        case False
        with Cons.prems(2) g have m: "(key, rows) \<in> set groups" by auto
        with Cons.prems(4) g have "key \<noteq> k" by force
        moreover have "map_of table' key = Some (replicate (length sn_get_features_keys) NaN)"
          using Cons.IH [OF b [unfolded Inr] m Cons.prems(3)] Cons.prems(4) by simp
        ultimately show ?thesis using t by simp
      qed
    qed
  qed
qed

text \<open>
  Claim C6. For an object of the table without a detection in the band, the pass of the
  loop of \<open>HarmonicsExtractor\<close> logs the missing band at level INFO and appends a row of
  NaN, one per feature name, and \<open>aux_function\<close> of \<open>SNParametricModelExtractor\<close>
  returns a row of NaN, one per feature name, calls \<open>curve_fit\<close> never and raises nothing.
  Once the periods are obtained the table of \<open>HarmonicsExtractor\<close> is returned and holds
  that row for the object, and so does every table that \<open>SNParametricModelExtractor\<close>
  returns.
\<close>

theorem missing_band_row_is_all_nan:
  assumes present: "object_id \<in> set (map oid dets)"
    and missing: "band \<notin> set (map fid (filter (\<lambda>d. oid d = object_id) dets))"
  shows "harmonics_object pinv n periods band dets object_id =
       ([Log INFO (MissingBand object_id band)],
        replicate (length (harmonics_get_features_keys n)) NaN)
   \<and> aux_function cf sn_model band (filter (\<lambda>d. oid d = object_id) dets) =
       ([], sn_model, Inr (replicate (length sn_get_features_keys) NaN))
   \<and> (\<forall>ev ps. get_periods pe kwargs dets = (ev, Inr ps) \<longrightarrow>
        (\<exists>events table.
           harmonics_compute_feature_in_one_band pe pinv n dets band kwargs = (events, Inr table)
           \<and> map_of table object_id =
               Some (replicate (length (harmonics_get_features_keys n)) NaN)))
   \<and> (\<forall>calls sn_model' table.
        sn_compute_feature_in_one_band cf sn_model dets band = (calls, sn_model', Inr table) \<longrightarrow>
          map_of table object_id = Some (replicate (length sn_get_features_keys) NaN))"
proof (intro conjI allI impI)
  show "harmonics_object pinv n periods band dets object_id =
       ([Log INFO (MissingBand object_id band)],
        replicate (length (harmonics_get_features_keys n)) NaN)"
    using harmonics_object_missing_band [OF missing] .
next
  show "aux_function cf sn_model band (filter (\<lambda>d. oid d = object_id) dets) =
       ([], sn_model, Inr (replicate (length sn_get_features_keys) NaN))"
    using aux_function_missing_band_keys [OF missing] .
next
  fix ev ps
  assume g: "get_periods pe kwargs dets = (ev, Inr ps)"
  from present have ne: "dets \<noteq> []" by auto
  have "map_of (map (\<lambda>i. (i, snd (harmonics_object pinv n ps band dets i)))
            (unique (map oid dets))) object_id =
      Some (replicate (length (harmonics_get_features_keys n)) NaN)"
    using present harmonics_object_missing_band [OF missing, of pinv n ps]
    by (simp add: map_of_graph)
  then show "\<exists>events table.
      harmonics_compute_feature_in_one_band pe pinv n dets band kwargs = (events, Inr table)
      \<and> map_of table object_id = Some (replicate (length (harmonics_get_features_keys n)) NaN)"
    using harmonics_compute_with_periods [OF g, of pinv n band] ne by simp
next
  fix calls sn_model' table
  assume a: "sn_compute_feature_in_one_band cf sn_model dets band = (calls, sn_model', Inr table)"
  have m: "(object_id, filter (\<lambda>d. oid d = object_id) dets) \<in> set (groupby_oid dets)"
    using present by (auto simp: groupby_oid_def)
  show "map_of table object_id = Some (replicate (length sn_get_features_keys) NaN)"
    using apply_aux_function_missing_band [OF _ m missing groupby_oid_keys(1)] a
    by (simp add: sn_compute_feature_in_one_band_def)
qed


theorem missing_band_row_is_all_nan_witness:
  "''ZTF18a'' \<in> set (map oid
       [\<lparr>oid = ''ZTF18b'', fid = 1, mjd = Fin 0, magpsf = Fin 18, sigmapsf = Fin 0.1,
          magpsf_ml = Fin 18, sigmapsf_ml = Fin 0.1\<rparr>,
        \<lparr>oid = ''ZTF18a'', fid = 2, mjd = Fin 1, magpsf = Fin 17, sigmapsf = Fin 0.1,
          magpsf_ml = Fin 17, sigmapsf_ml = Fin 0.1\<rparr>])
   \<and> harmonics_object (\<lambda>A. Inl LinAlgError) 7 Map.empty 1
       [\<lparr>oid = ''ZTF18b'', fid = 1, mjd = Fin 0, magpsf = Fin 18, sigmapsf = Fin 0.1,
          magpsf_ml = Fin 18, sigmapsf_ml = Fin 0.1\<rparr>,
        \<lparr>oid = ''ZTF18a'', fid = 2, mjd = Fin 1, magpsf = Fin 17, sigmapsf = Fin 0.1,
          magpsf_ml = Fin 17, sigmapsf_ml = Fin 0.1\<rparr>] ''ZTF18a'' =
       ([Log INFO (MissingBand ''ZTF18a'' 1)], replicate 14 NaN)
   \<and> aux_function (\<lambda>c. Inl ValueError) SNModelScipy_init 1
       [\<lparr>oid = ''ZTF18a'', fid = 2, mjd = Fin 1, magpsf = Fin 17, sigmapsf = Fin 0.1,
          magpsf_ml = Fin 17, sigmapsf_ml = Fin 0.1\<rparr>] =
       ([], SNModelScipy_init, Inr (replicate 7 NaN))"
proof -
  define dets where "dets =
       [\<lparr>oid = ''ZTF18b'', fid = 1, mjd = Fin 0, magpsf = Fin 18, sigmapsf = Fin 0.1,
          magpsf_ml = Fin 18, sigmapsf_ml = Fin 0.1\<rparr>,
        \<lparr>oid = ''ZTF18a'', fid = 2, mjd = Fin 1, magpsf = Fin 17, sigmapsf = Fin 0.1,
          magpsf_ml = Fin 17, sigmapsf_ml = Fin 0.1\<rparr>]"
  have present: "''ZTF18a'' \<in> set (map oid dets)"
    by (simp add: dets_def)
  have missing: "1 \<notin> set (map fid (filter (\<lambda>d. oid d = ''ZTF18a'') dets))"
    by (simp add: dets_def)
  have f: "filter (\<lambda>d. oid d = ''ZTF18a'') dets =
      [\<lparr>oid = ''ZTF18a'', fid = 2, mjd = Fin 1, magpsf = Fin 17, sigmapsf = Fin 0.1,
          magpsf_ml = Fin 17, sigmapsf_ml = Fin 0.1\<rparr>]"
    by (simp add: dets_def)
  have k: "length (harmonics_get_features_keys 7) = 14" "length sn_get_features_keys = 7"
    by (simp_all add: harmonics_get_features_keys_def sn_get_features_keys_def)
  from missing_band_row_is_all_nan [OF present missing,
      of "\<lambda>A. Inl LinAlgError" 7 Map.empty "\<lambda>c. Inl ValueError" SNModelScipy_init]
  have "harmonics_object (\<lambda>A. Inl LinAlgError) 7 Map.empty 1 dets ''ZTF18a'' =
       ([Log INFO (MissingBand ''ZTF18a'' 1)], replicate 14 NaN)
   \<and> aux_function (\<lambda>c. Inl ValueError) SNModelScipy_init 1
       [\<lparr>oid = ''ZTF18a'', fid = 2, mjd = Fin 1, magpsf = Fin 17, sigmapsf = Fin 0.1,
          magpsf_ml = Fin 17, sigmapsf_ml = Fin 0.1\<rparr>] =
       ([], SNModelScipy_init, Inr (replicate 7 NaN))"
    unfolding f k by simp
  with present show ?thesis
    unfolding dets_def by simp
qed

lemma harmonics_object_events:
  "PeriodExtractor_compute_features \<notin> set (fst (harmonics_object pinv n ps band dets i))"
  "Log INFO NoPeriodData \<notin> set (fst (harmonics_object pinv n ps band dets i))"
  by (auto simp: harmonics_object_def Let_def split: sum.splits)

text \<open>
  Claim C9. Without a \<open>period\<close> entry (no \<open>shared_data\<close>, or no \<open>period\<close> in it) the
  extractor logs the fallback at level INFO and calls the period extractor once, on the
  whole table. If that raises, the exception leaves the extractor; otherwise the outcome
  is the outcome of the call with the entry set to the returned periods, after the two
  events of the fallback, and it is a table when the input has a row: the missing entry
  itself raises nothing. With the entry present the period extractor is not called,
  nothing is logged about a fallback and the outcome does not depend on the period
  extractor.
\<close>

theorem period_fallback:
  "((kwargs ''shared_data'' = None \<or> (\<exists>sd. kwargs ''shared_data'' = Some sd \<and> sd ''period'' = None)) \<longrightarrow>
      (case pe dets of
         Inl e \<Rightarrow>
           harmonics_compute_feature_in_one_band pe pinv n dets band kwargs =
             ([Log INFO NoPeriodData, PeriodExtractor_compute_features], Inl e)
       | Inr ps \<Rightarrow>
           (\<exists>events r.
              harmonics_compute_feature_in_one_band pe pinv n dets band
                [''shared_data'' \<mapsto> [''period'' \<mapsto> ps]] = (events, r)
              \<and> harmonics_compute_feature_in_one_band pe pinv n dets band kwargs =
                  ([Log INFO NoPeriodData, PeriodExtractor_compute_features] @ events, r)
              \<and> (dets \<noteq> [] \<longrightarrow> (\<exists>table. r = Inr table)))))
   \<and> (\<forall>sd ps. kwargs ''shared_data'' = Some sd \<and> sd ''period'' = Some ps \<longrightarrow>
        PeriodExtractor_compute_features \<notin>
          set (fst (harmonics_compute_feature_in_one_band pe pinv n dets band kwargs))
        \<and> Log INFO NoPeriodData \<notin>
          set (fst (harmonics_compute_feature_in_one_band pe pinv n dets band kwargs))
        \<and> harmonics_compute_feature_in_one_band pe pinv n dets band kwargs =
            harmonics_compute_feature_in_one_band pe' pinv n dets band kwargs)"
proof (intro conjI allI impI)
  assume absent: "kwargs ''shared_data'' = None \<or>
      (\<exists>sd. kwargs ''shared_data'' = Some sd \<and> sd ''period'' = None)"
  then have g: "get_periods pe kwargs dets =
      ([Log INFO NoPeriodData, PeriodExtractor_compute_features], pe dets)"
    by (auto simp: get_periods_def)
  show "case pe dets of
         Inl e \<Rightarrow>
           harmonics_compute_feature_in_one_band pe pinv n dets band kwargs =
             ([Log INFO NoPeriodData, PeriodExtractor_compute_features], Inl e)
       | Inr ps \<Rightarrow>
           (\<exists>events r.
              harmonics_compute_feature_in_one_band pe pinv n dets band
                [''shared_data'' \<mapsto> [''period'' \<mapsto> ps]] = (events, r)
              \<and> harmonics_compute_feature_in_one_band pe pinv n dets band kwargs =
                  ([Log INFO NoPeriodData, PeriodExtractor_compute_features] @ events, r)
              \<and> (dets \<noteq> [] \<longrightarrow> (\<exists>table. r = Inr table)))"
  proof (cases "pe dets")
    case (Inl e)
    with g harmonics_compute_no_periods [of pe kwargs dets _ e pinv n band]
    show ?thesis by simp
  next
    case (Inr ps)
    have g': "get_periods pe [''shared_data'' \<mapsto> [''period'' \<mapsto> ps]] dets = ([], Inr ps)"
      by (simp add: get_periods_def)
    show ?thesis
      using Inr g harmonics_compute_with_periods [OF g', of pinv n band]
        harmonics_compute_with_periods [of pe kwargs dets _ ps pinv n band]
      by simp
  qed
next
  fix sd ps
  assume present: "kwargs ''shared_data'' = Some sd \<and> sd ''period'' = Some ps"
  then have g: "get_periods q kwargs dets = ([], Inr ps)" for q
    by (simp add: get_periods_def)
  show "PeriodExtractor_compute_features \<notin>
          set (fst (harmonics_compute_feature_in_one_band pe pinv n dets band kwargs))"
    using harmonics_compute_with_periods [OF g, of pe pinv n band] harmonics_object_events(1)
    by auto
  show "Log INFO NoPeriodData \<notin>
          set (fst (harmonics_compute_feature_in_one_band pe pinv n dets band kwargs))"
    using harmonics_compute_with_periods [OF g, of pe pinv n band] harmonics_object_events(2)
    by auto
  show "harmonics_compute_feature_in_one_band pe pinv n dets band kwargs =
            harmonics_compute_feature_in_one_band pe' pinv n dets band kwargs"
    using harmonics_compute_with_periods [OF g, of pe pinv n band]
      harmonics_compute_with_periods [OF g, of pe' pinv n band]
    by simp
qed


theorem period_fallback_witness:
  "(Map.empty :: kwargs) ''shared_data'' = None
   \<and> (\<exists>events table.
        harmonics_compute_feature_in_one_band
          (\<lambda>d. Inr [''Multiband_period'' \<mapsto> [''ZTF18b'' \<mapsto> Fin 2]]) (\<lambda>A. Inl LinAlgError) 7
          [\<lparr>oid = ''ZTF18b'', fid = 1, mjd = Fin 0, magpsf = Fin 18, sigmapsf = Fin 0.1,
             magpsf_ml = Fin 18, sigmapsf_ml = Fin 0.1\<rparr>] 1 Map.empty =
          ([Log INFO NoPeriodData, PeriodExtractor_compute_features] @ events, Inr table))
   \<and> PeriodExtractor_compute_features \<notin>
        set (fst (harmonics_compute_feature_in_one_band
          (\<lambda>d. Inl RuntimeError) (\<lambda>A. Inl LinAlgError) 7
          [\<lparr>oid = ''ZTF18b'', fid = 1, mjd = Fin 0, magpsf = Fin 18, sigmapsf = Fin 0.1,
             magpsf_ml = Fin 18, sigmapsf_ml = Fin 0.1\<rparr>] 1
          [''shared_data'' \<mapsto> [''period'' \<mapsto> [''Multiband_period'' \<mapsto> [''ZTF18b'' \<mapsto> Fin 2]]]]))"
proof -
  define dets where "dets =
          [\<lparr>oid = ''ZTF18b'', fid = 1, mjd = Fin 0, magpsf = Fin 18, sigmapsf = Fin 0.1,
             magpsf_ml = Fin 18, sigmapsf_ml = Fin 0.1\<rparr>]"
  define ps :: periods where "ps = [''Multiband_period'' \<mapsto> [''ZTF18b'' \<mapsto> Fin 2]]"
  have ne: "dets \<noteq> []" by (simp add: dets_def)
  have a: "(Map.empty :: kwargs) ''shared_data'' = None" by simp
  from period_fallback [where kwargs = Map.empty and pe = "\<lambda>d. Inr ps" and dets = dets
      and pinv = "\<lambda>A. Inl LinAlgError" and n = 7 and band = 1] a ne
  have 1: "\<exists>events table.
        harmonics_compute_feature_in_one_band (\<lambda>d. Inr ps) (\<lambda>A. Inl LinAlgError) 7 dets 1 Map.empty =
          ([Log INFO NoPeriodData, PeriodExtractor_compute_features] @ events, Inr table)"
    by auto
  have p: "[''shared_data'' \<mapsto> [''period'' \<mapsto> ps]] ''shared_data'' = Some [''period'' \<mapsto> ps]
      \<and> [''period'' \<mapsto> ps] ''period'' = Some ps"
    by simp
  from period_fallback [where kwargs = "[''shared_data'' \<mapsto> [''period'' \<mapsto> ps]]"
      and pe = "\<lambda>d. Inl RuntimeError" and dets = dets and pinv = "\<lambda>A. Inl LinAlgError"
      and n = 7 and band = 1] p
  have 2: "PeriodExtractor_compute_features \<notin>
        set (fst (harmonics_compute_feature_in_one_band (\<lambda>d. Inl RuntimeError)
          (\<lambda>A. Inl LinAlgError) 7 dets 1 [''shared_data'' \<mapsto> [''period'' \<mapsto> ps]]))"
    by blast
  from a 1 2 show ?thesis
    unfolding dets_def ps_def by simp
qed

subsection \<open>The remainder modulo \<open>2 * np.pi\<close>\<close>

lemma np_pi_bounds: "3 < np_pi" "np_pi < 4"
  by (simp_all add: np_pi_def)


lemma round64_bounds:
  assumes pos: "0 < x" and less: "x < 2 * np_pi"
  shows "0 \<le> round64 x" "round64 x \<le> 2 * np_pi"
proof -
  define e where "e = \<lfloor>log 2 x\<rfloor>"
  define u :: real where "u = 2 powr (of_int e - 52)"
  have u: "0 < u" by (simp add: u_def)
  have r: "round64 x = of_int (round_half_even (x / u)) * u"
    using pos by (simp add: round64_def u_def e_def Let_def)
  have "0 \<le> x / u" using pos u by simp
  then have "0 \<le> round_half_even (x / u)" by (rule round_half_even_nonneg)
  then show "0 \<le> round64 x" using r u by simp
  have lo: "2 powr of_int e \<le> x" and hi: "x < 2 powr (of_int e + 1)"
    using binade [OF pos] by (simp_all add: e_def)
  have "x < 2 powr 3" using less np_pi_bounds by simp
  with lo have "(2::real) powr of_int e < 2 powr 3" by linarith
  then have "real_of_int e < 3"
    by (simp only: powr_less_cancel_iff [of 2] one_less_numeral_iff semiring_norm)
  then have e2: "e \<le> 2" by linarith
  show "round64 x \<le> 2 * np_pi"
  proof (cases "e = 2")
    case True
    then have u50: "u = 1 / 2 ^ 50"
      by (simp add: u_def powr_minus_divide powr_realpow [symmetric])
    have "x / u < of_int 7074237752028440"
      using less by (simp add: u50 np_pi_def)
    then have "round_half_even (x / u) \<le> 7074237752028440"
      using round_half_even_le [of "x / u" 7074237752028440] by simp
    then have "of_int (round_half_even (x / u)) * u \<le> 7074237752028440 * u"
      using u by (simp add: mult_right_mono)
    then show ?thesis
      using r by (simp add: u50 np_pi_def)
  next
    case False
    with e2 have e1: "e \<le> 1" by simp
    have "x / u < 2 powr (of_int e + 1) / u"
      using hi u by (simp add: divide_strict_right_mono)
    also have "2 powr (of_int e + 1) / u = 2 powr 53"
      by (simp add: u_def powr_diff [symmetric])
    also have "(2::real) powr 53 = of_int (2 ^ 53)"
      by (simp add: powr_realpow [symmetric])
    finally have "round_half_even (x / u) \<le> 2 ^ 53"
      using round_half_even_le [of "x / u" "2 ^ 53"] by simp
    then have "of_int (round_half_even (x / u)) * u \<le> of_int (2 ^ 53) * u"
      using u by (intro mult_right_mono) simp_all
    also have "of_int (2 ^ 53) * u = 2 powr 53 * u"
      by (simp add: powr_realpow [symmetric])
    also have "2 powr 53 * u = 2 powr (of_int e + 1)"
    proof -
      have "(2::real) powr 53 * 2 powr (of_int e - 52) = 2 powr (53 + (of_int e - 52))"
        by (rule powr_add [symmetric])
      also have "53 + (real_of_int e - 52) = of_int e + 1" by simp
      finally show ?thesis by (simp only: u_def)
    qed
    also have "\<dots> \<le> 2 powr 2"
    proof (rule powr_mono)
      show "real_of_int e + 1 \<le> 2" using e1 by simp
    qed simp
    also have "(2::real) powr 2 \<le> 2 * np_pi"
      using np_pi_bounds by simp
    finally show ?thesis using r by simp
  qed
qed


lemma fmod_bounds:
  assumes b: "0 < b"
  shows "0 \<le> a \<Longrightarrow> 0 \<le> fmod a b \<and> fmod a b < b"
    and "a < 0 \<Longrightarrow> - b < fmod a b \<and> fmod a b \<le> 0"
proof -
  define q where "q = a / b"
  have a: "a = b * q" using b by (simp add: q_def)
  {
    assume "0 \<le> a"
    then have q: "0 \<le> q" using b by (simp add: q_def)
    define d where "d = q - of_int \<lfloor>q\<rfloor>"
    have d: "0 \<le> d" "d < 1" unfolding d_def by linarith+
    have f: "fmod a b = b * d"
      using q by (simp add: fmod_def q_def [symmetric] d_def a algebra_simps)
    have "0 \<le> b * d" using b d(1) by simp
    moreover have "b * d < b * 1" using b d(2) by (intro mult_strict_left_mono)
    ultimately show "0 \<le> fmod a b \<and> fmod a b < b" using f by simp
  }
  {
    assume "a < 0"
    then have "a / b < 0" using b by (rule divide_neg_pos)
    then have q: "\<not> 0 \<le> q" by (simp add: q_def)
    define d where "d = of_int \<lceil>q\<rceil> - q"
    have d: "0 \<le> d" "d < 1" unfolding d_def by linarith+
    have f: "fmod a b = - (b * d)"
      using q by (simp add: fmod_def q_def [symmetric] d_def a algebra_simps)
    have "0 \<le> b * d" using b d(1) by simp
    moreover have "b * d < b * 1" using b d(2) by (intro mult_strict_left_mono)
    ultimately show "- b < fmod a b \<and> fmod a b \<le> 0" using f by simp
  }
qed

lemma np_mod_two_pi_range:
  "\<exists>r. np_mod (Fin a) (Fin (2 * np_pi)) = Fin r \<and> 0 \<le> r \<and> r \<le> 2 * np_pi"
proof -
  have b: "0 < 2 * np_pi" using np_pi_bounds by simp
  show ?thesis
  proof (cases "0 \<le> a")
    case True
    with fmod_bounds(1) [OF b, of a] b show ?thesis
      by (auto simp: Let_def)
  next
    case False
    then have neg: "a < 0" by simp
    from fmod_bounds(2) [OF b neg] have m: "- (2 * np_pi) < fmod a (2 * np_pi)"
      "fmod a (2 * np_pi) \<le> 0"
      by simp_all
    show ?thesis
    proof (cases "fmod a (2 * np_pi) = 0")
      case True
      with b show ?thesis by (simp add: Let_def)
    next
      case False
      with m have "0 < fmod a (2 * np_pi) + 2 * np_pi" "fmod a (2 * np_pi) + 2 * np_pi < 2 * np_pi"
        by simp_all
      from round64_bounds [OF this] False m b show ?thesis
        by (simp add: Let_def)
    qed
  qed
qed

lemma np_mod_finite:
  "isfinite (np_mod x (Fin b)) \<Longrightarrow> isfinite x"
  by (cases x) simp_all

lemma np_sqrt_nonneg:
  "np_sqrt (square c + square s) = Fin r \<Longrightarrow> 0 \<le> r"
  by (cases c; cases s) (auto split: if_splits)

text \<open>
  \<open>np.pi\<close> lies below \<open>\<pi>\<close>: the alternating series of the arc tangent bounds the two
  terms of Machin's formula.
\<close>

lemma arctan_series_bounds:
  fixes x :: real
  assumes "0 < x" "x \<le> 1"
  shows "(\<Sum>i<2 * n. (- 1) ^ i * (1 / real (i * 2 + 1) * x ^ (i * 2 + 1))) \<le> arctan x"
    and "arctan x \<le> (\<Sum>i<2 * n + 1. (- 1) ^ i * (1 / real (i * 2 + 1) * x ^ (i * 2 + 1)))"
proof -
  have a: "\<bar>x\<bar> \<le> 1" using assms by simp
  have p: "0 < 1 / real (0 * 2 + 1) * x ^ (0 * 2 + 1)" using assms by simp
  from summable_Leibniz(2) [OF zeroseq_arctan_series [OF a] monoseq_arctan_series [OF a]] p
  have "(\<Sum>i. (- 1) ^ i * (1 / real (i * 2 + 1) * x ^ (i * 2 + 1)))
      \<in> {\<Sum>i<2 * n. (- 1) ^ i * (1 / real (i * 2 + 1) * x ^ (i * 2 + 1)) ..
          \<Sum>i<2 * n + 1. (- 1) ^ i * (1 / real (i * 2 + 1) * x ^ (i * 2 + 1))}"
    by blast
  then show "(\<Sum>i<2 * n. (- 1) ^ i * (1 / real (i * 2 + 1) * x ^ (i * 2 + 1))) \<le> arctan x"
    and "arctan x \<le> (\<Sum>i<2 * n + 1. (- 1) ^ i * (1 / real (i * 2 + 1) * x ^ (i * 2 + 1)))"
    using arctan_series [OF a] by simp_all
qed

lemma pi_lower: "884279719003555 / 2 ^ 48 < pi"
proof -
  have l: "(\<Sum>i<2 * 7. (- 1) ^ i * (1 / real (i * 2 + 1) * (1 / 5) ^ (i * 2 + 1))) \<le> arctan (1 / 5)"
    by (rule arctan_series_bounds(1)) simp_all
  have u: "arctan (1 / 239) \<le> (\<Sum>i<2 * 2 + 1. (- 1) ^ i * (1 / real (i * 2 + 1) * (1 / 239) ^ (i * 2 + 1)))"
    by (rule arctan_series_bounds(2)) simp_all
  have "884279719003555 / 2 ^ 48 <
      16 * (\<Sum>i<2 * 7. (- 1) ^ i * (1 / real (i * 2 + 1) * (1 / 5) ^ (i * 2 + 1)))
      - 4 * (\<Sum>i<2 * 2 + 1. (- 1) ^ i * (1 / real (i * 2 + 1) * (1 / 239) ^ (i * 2 + 1)))"
    by (simp add: eval_nat_numeral)
  also have "\<dots> \<le> 16 * arctan (1 / 5) - 4 * arctan (1 / 239)"
    using l u by linarith
  also have "\<dots> = pi"
    using machin by simp
  finally show ?thesis .
qed


lemma np_pi_less_pi: "np_pi < pi"
  using pi_lower by (simp add: np_pi_def)

lemma pi_upper: "pi < 884279719003555 / 2 ^ 48 + 1 / 2 ^ 52"
proof -
  have u: "arctan (1 / 5) \<le> (\<Sum>i<2 * 6 + 1. (- 1) ^ i * (1 / real (i * 2 + 1) * (1 / 5) ^ (i * 2 + 1)))"
    by (rule arctan_series_bounds(2)) simp_all
  have l: "(\<Sum>i<2 * 2. (- 1) ^ i * (1 / real (i * 2 + 1) * (1 / 239) ^ (i * 2 + 1))) \<le> arctan (1 / 239)"
    by (rule arctan_series_bounds(1)) simp_all
  have "pi = 16 * arctan (1 / 5) - 4 * arctan (1 / 239)"
    using machin by simp
  also have "\<dots> \<le> 16 * (\<Sum>i<2 * 6 + 1. (- 1) ^ i * (1 / real (i * 2 + 1) * (1 / 5) ^ (i * 2 + 1)))
      - 4 * (\<Sum>i<2 * 2. (- 1) ^ i * (1 / real (i * 2 + 1) * (1 / 239) ^ (i * 2 + 1)))"
    using l u by linarith
  also have "\<dots> < 884279719003555 / 2 ^ 48 + 1 / 2 ^ 52"
    by (simp add: eval_nat_numeral)
  finally show ?thesis .
qed

text \<open>
  The binary64 number nearest to \<open>\<pi>\<close> is \<open>np.pi\<close>, so \<open>np.arctan2(0., -1.)\<close> is
  \<open>np.pi\<close>; and \<open>np.pi\<close> is its own rounding.
\<close>

lemma round64_pi: "round64 pi = np_pi"
proof -
  have x: "2 \<le> pi" "pi < 4" "pi \<noteq> 0"
    using pi_ge_two pi_less_4 by simp_all
  have "\<lfloor>log 2 \<bar>pi\<bar>\<rfloor> = 1"
    using x floor_log_eq_powr_iff [of pi 2 1] by simp
  then have r: "round64 pi = of_int (round_half_even (pi * 2 ^ 51)) / 2 ^ 51"
    using x by (simp add: round64_def Let_def powr_minus_divide powr_realpow [symmetric])
  define y where "y = pi * 2 ^ 51"
  have lo: "7074237752028440 < y"
    using pi_lower by (simp add: y_def field_simps)
  have hi: "y < 7074237752028440 + 1 / 2"
    using pi_upper by (simp add: y_def field_simps)
  have fl: "\<lfloor>y\<rfloor> = 7074237752028440"
    using lo hi by (intro floor_unique) simp_all
  have d: "y - of_int \<lfloor>y\<rfloor> < 1 / 2"
    unfolding fl using hi by simp
  have "round_half_even y = \<lfloor>y\<rfloor>"
    unfolding round_half_even_def Let_def using d by simp
  then have "round_half_even y = 7074237752028440"
    unfolding fl by simp
  with r show ?thesis
    by (simp add: np_pi_def y_def)
qed

lemma round64_np_pi: "round64 np_pi = np_pi"
proof -
  have x: "2 \<le> np_pi" "np_pi < 4" "np_pi \<noteq> 0"
    by (simp_all add: np_pi_def)
  have "\<lfloor>log 2 \<bar>np_pi\<bar>\<rfloor> = 1"
    using x floor_log_eq_powr_iff [of np_pi 2 1] by simp
  then have r: "round64 np_pi = of_int (round_half_even (np_pi * 2 ^ 51)) / 2 ^ 51"
    using x by (simp add: round64_def Let_def powr_minus_divide powr_realpow [symmetric])
  have xe: "np_pi * 2 ^ 51 = of_int 7074237752028440"
    by (simp add: np_pi_def)
  have "round_half_even (np_pi * 2 ^ 51) = 7074237752028440"
    unfolding xe round_half_even_def Let_def by simp
  with r show ?thesis
    by (simp add: np_pi_def)
qed

lemma np_arctan2_minus_one: "np_arctan2 (Fin 0) (Fin (- 1)) = Fin np_pi"
  by (simp add: arctan2_def round64_pi)

lemma np_arctan2_one: "np_arctan2 (Fin 0) (Fin 1) = Fin 0"
  by (simp add: arctan2_def round64_def)

text \<open>The rounding of a negative number is negative and at least its double.\<close>

lemma round64_negative:
  assumes "x < 0"
  shows "round64 x < 0" "2 * x \<le> round64 x"
proof -
  define e where "e = \<lfloor>log 2 \<bar>x\<bar>\<rfloor>"
  define u :: real where "u = 2 powr (of_int e - 52)"
  have u: "0 < u" by (simp add: u_def)
  have r: "round64 x = of_int (round_half_even (x / u)) * u"
    using assms by (simp add: round64_def u_def e_def Let_def)
  have ax: "0 < \<bar>x\<bar>" using assms by simp
  have lo: "2 powr of_int e \<le> - x" and hi: "- x < 2 powr (of_int e + 1)"
    using binade [OF ax] assms by (simp_all add: e_def)
  have p52: "2 powr of_int e / u = 2 powr 52"
    by (simp add: u_def powr_diff [symmetric])
  have p53: "2 powr (of_int e + 1) / u = 2 powr 53"
    by (simp add: u_def powr_diff [symmetric])
  have i52: "(2::real) powr 52 = of_int (2 ^ 52)"
    by (simp add: powr_realpow [symmetric])
  have i53: "(2::real) powr 53 = of_int (2 ^ 53)"
    by (simp add: powr_realpow [symmetric])
  have "2 powr of_int e / u \<le> (- x) / u"
    using lo u by (rule divide_right_mono [OF _ less_imp_le])
  then have "x / u \<le> - (2 powr 52)"
    unfolding p52 by simp
  then have "x / u \<le> of_int (- (2 ^ 52))"
    unfolding i52 by simp
  then have a: "round_half_even (x / u) \<le> - (2 ^ 52)"
    by (rule round_half_even_le)
  have "(- x) / u \<le> 2 powr (of_int e + 1) / u"
    using hi u by (intro divide_right_mono) simp_all
  then have "- (2 powr 53) \<le> x / u"
    unfolding p53 by simp
  then have "of_int (- (2 ^ 53)) \<le> x / u"
    unfolding i53 by simp
  then have b: "- (2 ^ 53) \<le> round_half_even (x / u)"
    by (rule round_half_even_ge)
  from a have "round_half_even (x / u) < 0" by simp
  then have "of_int (round_half_even (x / u)) * u < 0"
    using u by (simp add: mult_neg_pos)
  then show "round64 x < 0" using r by simp
  have "2 * x \<le> - (2 powr (of_int e + 1))"
    using lo by (simp add: powr_add)
  also have "- (2 powr (of_int e + 1)) = - (2 powr 53 * u)"
  proof -
    have "(2::real) powr 53 * 2 powr (of_int e - 52) = 2 powr (53 + (of_int e - 52))"
      by (rule powr_add [symmetric])
    also have "53 + (real_of_int e - 52) = of_int e + 1" by simp
    finally show ?thesis by (simp only: u_def)
  qed
  also have "- (2 powr 53 * u) = of_int (- (2 ^ 53)) * u"
    unfolding i53 by simp
  also have "\<dots> \<le> of_int (round_half_even (x / u)) * u"
    using b u by (intro mult_right_mono) simp_all
  finally show "2 * x \<le> round64 x" using r by simp
qed

subsection \<open>The features of the harmonic fit\<close>

lemma coef_lengths:
  assumes "length coeffs = 2 * n + 1"
  shows "length (coef_cos n coeffs) = n" "length (coef_sin n coeffs) = n"
    "length (coef_mag n coeffs) = n" "length (coef_phi n coeffs) = n"
  using assms by (simp_all add: coef_cos_def coef_sin_def coef_mag_def coef_phi_def)

lemma coef_nth:
  assumes "length coeffs = 2 * n + 1" "i < n"
  shows "coef_mag n coeffs ! i = np_sqrt (square (coeffs ! (i + 1)) + square (coeffs ! (n + 1 + i)))"
    and "coef_phi n coeffs ! i = np_arctan2 (coeffs ! (n + 1 + i)) (coeffs ! (i + 1))"
  using assms by (simp_all add: coef_cos_def coef_sin_def coef_mag_def coef_phi_def)

lemma relative_phase_success:
  assumes "relative_phase n phi = Inr rel" "length phi = n"
  shows "1 \<le> n" "length rel = n - 1"
    "\<forall>k. 2 \<le> k \<and> k \<le> n \<longrightarrow>
       rel ! (k - 2) = np_mod (phi ! (k - 1) - phi ! 0 * Fin (real k)) (Fin (2 * np_pi))"
proof -
  from assms obtain phi0 rest where p: "phi = phi0 # rest"
    by (cases phi) (auto simp: relative_phase_def)
  with assms(2) show "1 \<le> n" by auto
  have rel: "rel = map (\<lambda>p. np_mod p (Fin (2 * np_pi)))
      (tl (map2 (\<lambda>p k. p - phi ! 0 * Fin (real k)) phi [1..<n + 1]))"
    using assms(1) p by (simp add: relative_phase_def)
  then show "length rel = n - 1"
    using assms(2) by (simp del: upt_Suc)
  show "\<forall>k. 2 \<le> k \<and> k \<le> n \<longrightarrow>
       rel ! (k - 2) = np_mod (phi ! (k - 1) - phi ! 0 * Fin (real k)) (Fin (2 * np_pi))"
  proof (intro allI impI)
    fix k assume k: "2 \<le> k \<and> k \<le> n"
    then have i: "k - 2 < n - 1" "Suc (k - 2) = k - 1" "k - 1 < n" by auto
    have "tl (map2 (\<lambda>p k. p - phi ! 0 * Fin (real k)) phi [1..<n + 1]) ! (k - 2) =
        map2 (\<lambda>p k. p - phi ! 0 * Fin (real k)) phi [1..<n + 1] ! (k - 1)"
      using i assms(2) by (simp add: nth_tl del: upt_Suc)
    also have "\<dots> = phi ! (k - 1) - phi ! 0 * Fin (real k)"
    proof -
      have "[1..<n + 1] ! (k - 1) = 1 + (k - 1)"
        using i by (intro nth_upt) simp
      then have u: "[1..<n + 1] ! (k - 1) = k" using k by simp
      show ?thesis
        using i assms(2) u by (simp del: upt_Suc)
    qed
    finally show "rel ! (k - 2) =
        np_mod (phi ! (k - 1) - phi ! 0 * Fin (real k)) (Fin (2 * np_pi))"
      using rel i assms(2) by (simp del: upt_Suc)
  qed
qed

lemma np_dot_length:
  assumes "np_dot rows v = Inr w" "row \<in> set rows"
  shows "length row = length v"
  using assms by (auto simp: np_dot_def list_all_iff split: if_splits)

lemma omega_row_length: "length (omega_row n f t) = 2 * n + 1"
  by (simp add: omega_row_def)

lemma harmonic_fit_success:
  assumes "harmonic_fit pinv n periods object_id magnitude time error = Inr features"
    and "time \<noteq> []"
  shows "\<exists>omega coeffs fitted rel.
        harmonic_omega n periods object_id time = Inr omega
      \<and> harmonic_coeffs pinv omega magnitude error = Inr coeffs
      \<and> np_dot omega coeffs = Inr fitted
      \<and> length coeffs = 2 * n + 1
      \<and> relative_phase n (coef_phi n coeffs) = Inr rel
      \<and> features = coef_mag n coeffs @ rel @ [np_mean (map square (map2 (-) fitted magnitude))]"
proof -
  from assms(1) obtain omega coeffs fitted rel where
    o: "harmonic_omega n periods object_id time = Inr omega"
    and c: "harmonic_coeffs pinv omega magnitude error = Inr coeffs"
    and d: "np_dot omega coeffs = Inr fitted"
    and r: "relative_phase n (coef_phi n coeffs) = Inr rel"
    and f: "features = coef_mag n coeffs @ rel
        @ [np_mean (map square (map2 (-) fitted magnitude))]"
    by (auto simp: harmonic_fit_def Let_def split: sum.splits)
  from o obtain period where om: "omega = map (omega_row n (Fin 1 / period)) time"
    by (auto simp: harmonic_omega_def Let_def split: option.splits)
  from assms(2) obtain t where "t \<in> set time" by (cases time) auto
  then have "omega_row n (Fin 1 / period) t \<in> set omega"
    by (simp add: om)
  from np_dot_length [OF d this] have "length coeffs = 2 * n + 1"
    by (simp add: omega_row_length)
  with o c d r f show ?thesis by blast
qed

lemma harmonics_object_success:
  assumes "harmonics_object pinv n periods band dets object_id = ([], features)"
    and rows: "rows = filter (\<lambda>d. fid d = band) (filter (\<lambda>d. oid d = object_id) dets)"
  shows "\<exists>omega coeffs fitted rel.
        harmonic_omega n periods object_id (map mjd rows) = Inr omega
      \<and> harmonic_coeffs pinv omega (map magpsf_ml rows)
            (map (\<lambda>d. sigmapsf_ml d + Fin 0.01) rows) = Inr coeffs
      \<and> np_dot omega coeffs = Inr fitted
      \<and> length coeffs = 2 * n + 1
      \<and> relative_phase n (coef_phi n coeffs) = Inr rel
      \<and> features = coef_mag n coeffs @ rel
            @ [np_mean (map square (map2 (-) fitted (map magpsf_ml rows)))]"
proof -
  have b: "band \<in> set (map fid (filter (\<lambda>d. oid d = object_id) dets))"
    using assms(1) by (auto simp: harmonics_object_def Let_def split: if_splits)
  then have ne: "map mjd rows \<noteq> []"
    by (auto simp: rows filter_empty_conv)
  have "harmonic_fit pinv n periods object_id (map magpsf_ml rows) (map mjd rows)
      (map (\<lambda>d. sigmapsf_ml d + Fin 0.01) rows) = Inr features"
    using assms(1) b
    by (auto simp: harmonics_object_def Let_def rows split: if_splits sum.splits)
  from harmonic_fit_success [OF this ne] show ?thesis .
qed


lemma np_arctan2_isfinite: "np_arctan2 y x = NaN \<or> isfinite (np_arctan2 y x)"
  by (cases y; cases x) simp_all

lemma np_arctan2_finite_or_nan: "np_arctan2 y x = NaN \<or> (\<exists>r. np_arctan2 y x = Fin r)"
  using np_arctan2_isfinite [of y x] by (cases "np_arctan2 y x") simp_all

lemma features_keys_length: "1 \<le> n \<Longrightarrow> length (harmonics_get_features_keys n) = 2 * n"
  by (simp add: harmonics_get_features_keys_def)

lemma features_keys_nth:
  "i < n \<Longrightarrow> harmonics_get_features_keys n ! i = ''Harmonics_mag_'' @ show_nat (i + 1)"
  "2 \<le> k \<Longrightarrow> k \<le> n \<Longrightarrow>
     harmonics_get_features_keys n ! (n + k - 2) = ''Harmonics_phase_'' @ show_nat k"
  "1 \<le> n \<Longrightarrow> harmonics_get_features_keys n ! (2 * n - 1) = ''Harmonics_mse''"
proof -
  show "i < n \<Longrightarrow> harmonics_get_features_keys n ! i = ''Harmonics_mag_'' @ show_nat (i + 1)"
    by (simp add: harmonics_get_features_keys_def nth_append)
  show "harmonics_get_features_keys n ! (n + k - 2) = ''Harmonics_phase_'' @ show_nat k"
    if "2 \<le> k" "k \<le> n"
  proof -
    have e: "n + k - 2 = length (map (\<lambda>i. ''Harmonics_mag_'' @ show_nat (i + 1)) [0..<n]) + (k - 2)"
      using that by simp
    have "harmonics_get_features_keys n ! (n + k - 2) =
        (map (\<lambda>i. ''Harmonics_phase_'' @ show_nat (i + 1)) [1..<n] @ [''Harmonics_mse'']) ! (k - 2)"
      unfolding harmonics_get_features_keys_def e by (rule nth_append_length_plus)
    also have "\<dots> = ''Harmonics_phase_'' @ show_nat ([1..<n] ! (k - 2) + 1)"
      using that by (simp add: nth_append)
    also have "[1..<n] ! (k - 2) = 1 + (k - 2)"
      using that by (intro nth_upt) simp
    finally have "harmonics_get_features_keys n ! (n + k - 2) =
        ''Harmonics_phase_'' @ show_nat (1 + (k - 2) + 1)" .
    moreover have "1 + (k - 2) + 1 = k" using that by arith
    ultimately show ?thesis by simp
  qed
  show "harmonics_get_features_keys n ! (2 * n - 1) = ''Harmonics_mse''" if "1 \<le> n"
  proof -
    define names where "names = map (\<lambda>i. ''Harmonics_mag_'' @ show_nat (i + 1)) [0..<n]
        @ map (\<lambda>i. ''Harmonics_phase_'' @ show_nat (i + 1)) [1..<n]"
    have k: "harmonics_get_features_keys n = names @ [''Harmonics_mse'']"
      by (simp add: harmonics_get_features_keys_def names_def)
    have "length names = 2 * n - 1"
      using that by (simp add: names_def)
    then show ?thesis
      unfolding k by (metis nth_append_length)
  qed
qed

text \<open>
  Claim C4. When the pass for an object succeeds, the coefficient vector fitted to the
  detections of the object in the band has \<open>2 * n_harmonics + 1\<close> entries, and the row
  holds \<open>n_harmonics\<close> magnitudes, then the relative phases of the harmonics
  \<open>2, \<dots>, n_harmonics\<close>, then the mean squared error of the fitted magnitudes, under the
  names of \<open>get_features_keys\<close>. The phase reported for harmonic \<open>k\<close> is the raw phase
  of harmonic \<open>k\<close> minus \<open>k\<close> times the raw phase of harmonic 1, taken modulo
  \<open>2 * np.pi\<close>, the raw phases being \<open>np.arctan2\<close> of the sine and cosine coefficients
  of that vector. For harmonic 1 the same difference is zero whenever its raw phase is
  not NaN, and the row does not hold it.
\<close>

theorem harmonic_relative_phases:
  assumes ok: "harmonics_object pinv n periods band dets object_id = ([], features)"
    and rows: "rows = filter (\<lambda>d. fid d = band) (filter (\<lambda>d. oid d = object_id) dets)"
  shows "\<exists>omega coeffs fitted.
       harmonic_omega n periods object_id (map mjd rows) = Inr omega
     \<and> harmonic_coeffs pinv omega (map magpsf_ml rows)
           (map (\<lambda>d. sigmapsf_ml d + Fin 0.01) rows) = Inr coeffs
     \<and> np_dot omega coeffs = Inr fitted
     \<and> length coeffs = 2 * n + 1 \<and> 1 \<le> n
     \<and> length features = 2 * n
     \<and> length (harmonics_get_features_keys n) = 2 * n
     \<and> (\<forall>i<n. features ! i = np_sqrt (square (coeffs ! (i + 1)) + square (coeffs ! (n + 1 + i)))
            \<and> harmonics_get_features_keys n ! i = ''Harmonics_mag_'' @ show_nat (i + 1)
            \<and> coef_phi n coeffs ! i = np_arctan2 (coeffs ! (n + 1 + i)) (coeffs ! (i + 1)))
     \<and> (\<forall>k. 2 \<le> k \<and> k \<le> n \<longrightarrow>
            features ! (n + k - 2) =
              np_mod (coef_phi n coeffs ! (k - 1) - coef_phi n coeffs ! 0 * Fin (real k))
                (Fin (2 * np_pi))
            \<and> harmonics_get_features_keys n ! (n + k - 2) = ''Harmonics_phase_'' @ show_nat k)
     \<and> features ! (2 * n - 1) = np_mean (map square (map2 (-) fitted (map magpsf_ml rows)))
     \<and> harmonics_get_features_keys n ! (2 * n - 1) = ''Harmonics_mse''
     \<and> (coef_phi n coeffs ! 0 \<noteq> NaN \<longrightarrow>
            coef_phi n coeffs ! 0 - coef_phi n coeffs ! 0 * Fin (real 1) = Fin 0)"
proof -
  from harmonics_object_success [OF ok rows] obtain omega coeffs fitted rel where
    o: "harmonic_omega n periods object_id (map mjd rows) = Inr omega"
    and c: "harmonic_coeffs pinv omega (map magpsf_ml rows)
        (map (\<lambda>d. sigmapsf_ml d + Fin 0.01) rows) = Inr coeffs"
    and d: "np_dot omega coeffs = Inr fitted"
    and len: "length coeffs = 2 * n + 1"
    and r: "relative_phase n (coef_phi n coeffs) = Inr rel"
    and f: "features = coef_mag n coeffs @ rel
        @ [np_mean (map square (map2 (-) fitted (map magpsf_ml rows)))]"
    by blast
  note cl = coef_lengths [OF len]
  note rp = relative_phase_success [OF r cl(4)]
  have lf: "length features = 2 * n"
    using f cl(3) rp(1,2) by simp
  have mags: "features ! i = np_sqrt (square (coeffs ! (i + 1)) + square (coeffs ! (n + 1 + i)))"
    if "i < n" for i
    using f cl(3) that coef_nth(1) [OF len that] by (simp add: nth_append)
  have phases: "features ! (n + k - 2) =
      np_mod (coef_phi n coeffs ! (k - 1) - coef_phi n coeffs ! 0 * Fin (real k)) (Fin (2 * np_pi))"
    if "2 \<le> k \<and> k \<le> n" for k
  proof -
    have e: "n + k - 2 = length (coef_mag n coeffs) + (k - 2)"
      using cl(3) that by simp
    have "features ! (n + k - 2) =
        (rel @ [np_mean (map square (map2 (-) fitted (map magpsf_ml rows)))]) ! (k - 2)"
      unfolding f e by (rule nth_append_length_plus)
    also have "\<dots> = rel ! (k - 2)"
    proof -
      have "k - 2 < length rel" using rp(2) that by arith
      then show ?thesis by (simp add: nth_append)
    qed
    finally have "features ! (n + k - 2) = rel ! (k - 2)" .
    with rp(3) that show ?thesis by simp
  qed
  have mse: "features ! (2 * n - 1) = np_mean (map square (map2 (-) fitted (map magpsf_ml rows)))"
  proof -
    have "length (coef_mag n coeffs @ rel) = 2 * n - 1"
      using cl(3) rp(1,2) by simp
    then show ?thesis
      using f by (metis append.assoc nth_append_length)
  qed
  have first: "coef_phi n coeffs ! 0 - coef_phi n coeffs ! 0 * Fin (real 1) = Fin 0"
    if "coef_phi n coeffs ! 0 \<noteq> NaN"
  proof -
    have "coef_phi n coeffs ! 0 = np_arctan2 (coeffs ! (n + 1 + 0)) (coeffs ! (0 + 1))"
      using coef_nth(2) [OF len, of 0] rp(1) by simp
    with that np_arctan2_finite_or_nan obtain a where "coef_phi n coeffs ! 0 = Fin a"
      by metis
    then show ?thesis by (simp add: minus_fl_def)
  qed
  show ?thesis
    using o c d len rp(1) lf features_keys_length [OF rp(1)] mags phases mse first
      features_keys_nth coef_nth(2) [OF len] rp(1)
    by (intro exI [of _ omega] exI [of _ coeffs] exI [of _ fitted]) auto
qed


lemma upt_1_8: "[Suc 0..<8] = [1, 2, 3, 4, 5, 6, 7]"
  by (simp add: upt_conv_Cons)

text \<open>The fourteen feature names of the extractor as it is constructed.\<close>

lemma HarmonicsExtractor_init_keys:
  "harmonics_get_features_keys HarmonicsExtractor_init =
     [''Harmonics_mag_1'', ''Harmonics_mag_2'', ''Harmonics_mag_3'', ''Harmonics_mag_4'',
      ''Harmonics_mag_5'', ''Harmonics_mag_6'', ''Harmonics_mag_7'',
      ''Harmonics_phase_2'', ''Harmonics_phase_3'', ''Harmonics_phase_4'',
      ''Harmonics_phase_5'', ''Harmonics_phase_6'', ''Harmonics_phase_7'', ''Harmonics_mse'']"
  by (simp add: harmonics_get_features_keys_def HarmonicsExtractor_init_def show_nat.simps
      upt_conv_Cons)

text \<open>
  The remainders of the multiples of \<open>np.pi\<close> that the example below meets.
\<close>

lemma np_mod_zero: "np_mod (Fin 0) (Fin (2 * np_pi)) = Fin 0"
  by (simp add: fmod_def np_pi_def)

lemma fmod_multiple_of_pi:
  "fmod (- (real (2 * j + 1) * np_pi)) (2 * np_pi) = - np_pi"
  "fmod (- (real (2 * j) * np_pi)) (2 * np_pi) = 0"
proof -
  have p: "0 < np_pi" using np_pi_bounds by simp
  have q1: "- (real (2 * j + 1) * np_pi) / (2 * np_pi) = - real j - 1 / 2"
    using p by (simp add: field_simps)
  have c1: "\<lceil>- real j - 1 / 2\<rceil> = - int j"
    by (intro ceiling_unique) simp_all
  show "fmod (- (real (2 * j + 1) * np_pi)) (2 * np_pi) = - np_pi"
    unfolding fmod_def q1 c1 by (simp add: algebra_simps)
  have q2: "- (real (2 * j) * np_pi) / (2 * np_pi) = - real j"
    using p by (simp add: field_simps)
  have c2: "\<lceil>- real j\<rceil> = - int j"
    by (intro ceiling_unique) simp_all
  show "fmod (- (real (2 * j) * np_pi)) (2 * np_pi) = 0"
    unfolding fmod_def q2 c2 by (simp add: algebra_simps)
qed

lemma np_mod_multiple_of_pi:
  "np_mod (Fin (- (real (2 * j + 1) * np_pi))) (Fin (2 * np_pi)) = Fin np_pi"
  "np_mod (Fin (- (real (2 * j) * np_pi))) (Fin (2 * np_pi)) = Fin 0"
proof -
  have p: "0 < np_pi" using np_pi_bounds by simp
  define a where "a = - (real (2 * j + 1) * np_pi)"
  define b where "b = - (real (2 * j) * np_pi)"
  have fa: "fmod a (2 * np_pi) = - np_pi" and fb: "fmod b (2 * np_pi) = 0"
    unfolding a_def b_def by (rule fmod_multiple_of_pi)+
  have "np_mod (Fin a) (Fin (2 * np_pi)) = Fin np_pi"
    using p by (simp add: fa round64_np_pi Let_def)
  then show "np_mod (Fin (- (real (2 * j + 1) * np_pi))) (Fin (2 * np_pi)) = Fin np_pi"
    unfolding a_def .
  have "np_mod (Fin b) (Fin (2 * np_pi)) = Fin 0"
    using p by (simp add: fb Let_def)
  then show "np_mod (Fin (- (real (2 * j) * np_pi))) (Fin (2 * np_pi)) = Fin 0"
    unfolding b_def .
qed

text \<open>
  An example: one detection, and a pseudo-inverse that gives the cosine coefficients
  \<open>-1, -1, 1, 1, 1, 1, 1\<close> and the sine coefficients 0. The raw phases are
  \<open>np.pi, np.pi, 0, 0, 0, 0, 0\<close>.
\<close>

lemma coef_phi_example:
  "coef_phi 7 [Fin 0, Fin (- 1), Fin (- 1), Fin 1, Fin 1, Fin 1, Fin 1, Fin 1,
               Fin 0, Fin 0, Fin 0, Fin 0, Fin 0, Fin 0, Fin 0] =
   [Fin np_pi, Fin np_pi, Fin 0, Fin 0, Fin 0, Fin 0, Fin 0]"
  by (simp add: coef_phi_def coef_cos_def coef_sin_def np_arctan2_minus_one np_arctan2_one
      del: np_arctan2.simps)

lemma relative_phase_example:
  "relative_phase 7 [Fin np_pi, Fin np_pi, Fin 0, Fin 0, Fin 0, Fin 0, Fin 0] =
   Inr [Fin np_pi, Fin np_pi, Fin 0, Fin np_pi, Fin 0, Fin np_pi]"
proof -
  have d: "Fin np_pi - Fin np_pi * Fin 2 = Fin (- (real (2 * 0 + 1) * np_pi))"
    "Fin 0 - Fin np_pi * Fin 3 = Fin (- (real (2 * 1 + 1) * np_pi))"
    "Fin 0 - Fin np_pi * Fin 4 = Fin (- (real (2 * 2) * np_pi))"
    "Fin 0 - Fin np_pi * Fin 5 = Fin (- (real (2 * 2 + 1) * np_pi))"
    "Fin 0 - Fin np_pi * Fin 6 = Fin (- (real (2 * 3) * np_pi))"
    "Fin 0 - Fin np_pi * Fin 7 = Fin (- (real (2 * 3 + 1) * np_pi))"
    by (simp_all add: minus_fl_def)
  have "relative_phase 7 [Fin np_pi, Fin np_pi, Fin 0, Fin 0, Fin 0, Fin 0, Fin 0] =
      Inr [np_mod (Fin np_pi - Fin np_pi * Fin 2) (Fin (2 * np_pi)),
           np_mod (Fin 0 - Fin np_pi * Fin 3) (Fin (2 * np_pi)),
           np_mod (Fin 0 - Fin np_pi * Fin 4) (Fin (2 * np_pi)),
           np_mod (Fin 0 - Fin np_pi * Fin 5) (Fin (2 * np_pi)),
           np_mod (Fin 0 - Fin np_pi * Fin 6) (Fin (2 * np_pi)),
           np_mod (Fin 0 - Fin np_pi * Fin 7) (Fin (2 * np_pi))]"
    by (simp add: relative_phase_def upt_1_8 del: np_mod.simps)
  then show ?thesis
    unfolding d by (simp only: np_mod_multiple_of_pi)
qed

lemma harmonics_object_example:
  "harmonics_object
     (\<lambda>A. Inr [[Fin 0], [Fin (- 1)], [Fin (- 1)], [Fin 1], [Fin 1], [Fin 1], [Fin 1], [Fin 1],
                [Fin 0], [Fin 0], [Fin 0], [Fin 0], [Fin 0], [Fin 0], [Fin 0]])
     7 [''Multiband_period'' \<mapsto> [''ZTF18b'' \<mapsto> Fin 2]] 1
     [\<lparr>oid = ''ZTF18b'', fid = 1, mjd = Fin 0, magpsf = Fin 1, sigmapsf = Fin 0.99,
        magpsf_ml = Fin 1, sigmapsf_ml = Fin 0.99\<rparr>] ''ZTF18b'' =
   ([], [Fin 1, Fin 1, Fin 1, Fin 1, Fin 1, Fin 1, Fin 1,
         Fin np_pi, Fin np_pi, Fin 0, Fin np_pi, Fin 0, Fin np_pi, Fin 4])"
  by (simp add: harmonics_object_def harmonic_fit_def harmonic_omega_def harmonic_coeffs_def
      omega_row_def np_dot_def np_sum_def coef_phi_example relative_phase_example
      coef_mag_def coef_cos_def coef_sin_def np_mean_def minus_fl_def Let_def upt_1_8)

theorem harmonic_relative_phases_witness:
  "harmonics_object
     (\<lambda>A. Inr [[Fin 0], [Fin (- 1)], [Fin (- 1)], [Fin 1], [Fin 1], [Fin 1], [Fin 1], [Fin 1],
                [Fin 0], [Fin 0], [Fin 0], [Fin 0], [Fin 0], [Fin 0], [Fin 0]])
     7 [''Multiband_period'' \<mapsto> [''ZTF18b'' \<mapsto> Fin 2]] 1
     [\<lparr>oid = ''ZTF18b'', fid = 1, mjd = Fin 0, magpsf = Fin 1, sigmapsf = Fin 0.99,
        magpsf_ml = Fin 1, sigmapsf_ml = Fin 0.99\<rparr>] ''ZTF18b'' =
   ([], [Fin 1, Fin 1, Fin 1, Fin 1, Fin 1, Fin 1, Fin 1,
         Fin np_pi, Fin np_pi, Fin 0, Fin np_pi, Fin 0, Fin np_pi, Fin 4])
   \<and> (\<exists>omega coeffs.
         harmonic_omega 7 [''Multiband_period'' \<mapsto> [''ZTF18b'' \<mapsto> Fin 2]] ''ZTF18b'' [Fin 0] =
           Inr omega
       \<and> harmonic_coeffs
           (\<lambda>A. Inr [[Fin 0], [Fin (- 1)], [Fin (- 1)], [Fin 1], [Fin 1], [Fin 1], [Fin 1], [Fin 1],
                      [Fin 0], [Fin 0], [Fin 0], [Fin 0], [Fin 0], [Fin 0], [Fin 0]])
           omega [Fin 1] [Fin 1] = Inr coeffs
       \<and> coef_phi 7 coeffs = [Fin np_pi, Fin np_pi, Fin 0, Fin 0, Fin 0, Fin 0, Fin 0]
       \<and> Fin np_pi = np_mod (coef_phi 7 coeffs ! 1 - coef_phi 7 coeffs ! 0 * Fin 2)
                         (Fin (2 * np_pi)))
   \<and> length (harmonics_get_features_keys 7) = 14
   \<and> harmonics_get_features_keys 7 ! 7 = ''Harmonics_phase_2''
   \<and> harmonics_get_features_keys 7 ! 13 = ''Harmonics_mse''"
proof -
  define pinv :: pinv where "pinv =
     (\<lambda>A. Inr [[Fin 0], [Fin (- 1)], [Fin (- 1)], [Fin 1], [Fin 1], [Fin 1], [Fin 1], [Fin 1],
                [Fin 0], [Fin 0], [Fin 0], [Fin 0], [Fin 0], [Fin 0], [Fin 0]])"
  define periods :: periods where "periods = [''Multiband_period'' \<mapsto> [''ZTF18b'' \<mapsto> Fin 2]]"
  define dets where "dets =
     [\<lparr>oid = ''ZTF18b'', fid = 1, mjd = Fin 0, magpsf = Fin 1, sigmapsf = Fin 0.99,
        magpsf_ml = Fin 1, sigmapsf_ml = Fin 0.99\<rparr>]"
  define row where "row = [Fin 1, Fin 1, Fin 1, Fin 1, Fin 1, Fin 1, Fin 1,
         Fin np_pi, Fin np_pi, Fin 0, Fin np_pi, Fin 0, Fin np_pi, Fin 4]"
  have e: "harmonics_object pinv 7 periods 1 dets ''ZTF18b'' = ([], row)"
    unfolding pinv_def periods_def dets_def row_def by (rule harmonics_object_example)
  have rows: "dets = filter (\<lambda>d. fid d = 1) (filter (\<lambda>d. oid d = ''ZTF18b'') dets)"
    by (simp add: dets_def)
  from harmonic_relative_phases [OF e rows] obtain omega coeffs where
    o: "harmonic_omega 7 periods ''ZTF18b'' (map mjd dets) = Inr omega"
    and c: "harmonic_coeffs pinv omega (map magpsf_ml dets)
        (map (\<lambda>d. sigmapsf_ml d + Fin 0.01) dets) = Inr coeffs"
    and p: "\<forall>k. 2 \<le> k \<and> k \<le> 7 \<longrightarrow>
            row ! (7 + k - 2) =
              np_mod (coef_phi 7 coeffs ! (k - 1) - coef_phi 7 coeffs ! 0 * Fin (real k))
                (Fin (2 * np_pi))
            \<and> harmonics_get_features_keys 7 ! (7 + k - 2) = ''Harmonics_phase_'' @ show_nat k"
    and l: "length (harmonics_get_features_keys 7) = 2 * 7"
    and m: "harmonics_get_features_keys 7 ! (2 * 7 - 1) = ''Harmonics_mse''"
    by blast
  have args: "map mjd dets = [Fin 0]" "map magpsf_ml dets = [Fin 1]"
    "map (\<lambda>d. sigmapsf_ml d + Fin 0.01) dets = [Fin 1]"
    by (simp_all add: dets_def)
  have "coeffs = [Fin 0, Fin (- 1), Fin (- 1), Fin 1, Fin 1, Fin 1, Fin 1, Fin 1,
               Fin 0, Fin 0, Fin 0, Fin 0, Fin 0, Fin 0, Fin 0]"
    using c unfolding args
    by (simp add: harmonic_coeffs_def pinv_def np_dot_def np_sum_def Let_def split: if_splits)
  then have phi: "coef_phi 7 coeffs = [Fin np_pi, Fin np_pi, Fin 0, Fin 0, Fin 0, Fin 0, Fin 0]"
    by (simp only: coef_phi_example)
  from p [rule_format, of 2]
  have p2: "Fin np_pi = np_mod (coef_phi 7 coeffs ! 1 - coef_phi 7 coeffs ! 0 * Fin 2)
                         (Fin (2 * np_pi))"
    and k2: "harmonics_get_features_keys 7 ! 7 = ''Harmonics_phase_2''"
    by (simp_all add: row_def show_nat.simps del: np_mod.simps)
  from l m have k: "length (harmonics_get_features_keys 7) = 14"
    "harmonics_get_features_keys 7 ! 13 = ''Harmonics_mse''"
    by simp_all
  have ex: "\<exists>omega coeffs.
         harmonic_omega 7 periods ''ZTF18b'' [Fin 0] = Inr omega
       \<and> harmonic_coeffs pinv omega [Fin 1] [Fin 1] = Inr coeffs
       \<and> coef_phi 7 coeffs = [Fin np_pi, Fin np_pi, Fin 0, Fin 0, Fin 0, Fin 0, Fin 0]
       \<and> Fin np_pi = np_mod (coef_phi 7 coeffs ! 1 - coef_phi 7 coeffs ! 0 * Fin 2)
                         (Fin (2 * np_pi))"
    using o c phi p2 unfolding args
    by - (rule exI [of _ omega], rule exI [of _ coeffs], intro conjI, assumption+)
  note e' = e [unfolded pinv_def periods_def dets_def row_def]
  note ex' = ex [unfolded pinv_def periods_def]
  show ?thesis
    using e' ex' k(1) k2 k(2) by - (intro conjI, assumption+)
qed

text \<open>
  Claim C5, amended. When the pass for an object succeeds and every value of the row is
  finite, every magnitude is the square root of the sum of the squares of a cosine and a
  sine coefficient of the fitted vector and is not negative, and every reported relative
  phase, that of harmonic 2 first, lies in the closed interval from 0 to \<open>2 * np.pi\<close>,
  the number that the remainder is taken by.
\<close>

theorem harmonic_amplitudes_and_phases_in_range:
  assumes ok: "harmonics_object pinv n periods band dets object_id = ([], features)"
    and fin: "\<forall>x\<in>set features. isfinite x"
    and rows: "rows = filter (\<lambda>d. fid d = band) (filter (\<lambda>d. oid d = object_id) dets)"
  shows "\<exists>omega coeffs.
       harmonic_omega n periods object_id (map mjd rows) = Inr omega
     \<and> harmonic_coeffs pinv omega (map magpsf_ml rows)
           (map (\<lambda>d. sigmapsf_ml d + Fin 0.01) rows) = Inr coeffs
     \<and> length coeffs = 2 * n + 1
     \<and> (\<forall>i<n. features ! i = np_sqrt (square (coeffs ! (i + 1)) + square (coeffs ! (n + 1 + i)))
            \<and> (\<exists>a. features ! i = Fin a \<and> 0 \<le> a))
     \<and> (\<forall>k. 2 \<le> k \<and> k \<le> n \<longrightarrow>
            (\<exists>r. features ! (n + k - 2) = Fin r \<and> 0 \<le> r \<and> r \<le> 2 * np_pi))"
proof -
  from harmonics_object_success [OF ok rows] obtain omega coeffs fitted rel where
    o: "harmonic_omega n periods object_id (map mjd rows) = Inr omega"
    and c: "harmonic_coeffs pinv omega (map magpsf_ml rows)
        (map (\<lambda>d. sigmapsf_ml d + Fin 0.01) rows) = Inr coeffs"
    and len: "length coeffs = 2 * n + 1"
    and r: "relative_phase n (coef_phi n coeffs) = Inr rel"
    and f: "features = coef_mag n coeffs @ rel
        @ [np_mean (map square (map2 (-) fitted (map magpsf_ml rows)))]"
    by blast
  define mse where "mse = np_mean (map square (map2 (-) fitted (map magpsf_ml rows)))"
  note f = f [folded mse_def]
  note cl = coef_lengths [OF len]
  note rp = relative_phase_success [OF r cl(4)]
  have lf: "length features = 2 * n"
    using f cl(3) rp(1,2) by simp
  have mags: "features ! i = np_sqrt (square (coeffs ! (i + 1)) + square (coeffs ! (n + 1 + i)))"
    if "i < n" for i
    using f cl(3) that coef_nth(1) [OF len that] by (simp add: nth_append)
  have amp: "features ! i = np_sqrt (square (coeffs ! (i + 1)) + square (coeffs ! (n + 1 + i)))
      \<and> (\<exists>a. features ! i = Fin a \<and> 0 \<le> a)" if "i < n" for i
  proof -
    from that lf have "features ! i \<in> set features" by simp
    with fin obtain a where a: "features ! i = Fin a"
      by (cases "features ! i") auto
    with mags [OF that] np_sqrt_nonneg show ?thesis by metis
  qed
  have amps: "\<forall>i<n. features ! i = np_sqrt (square (coeffs ! (i + 1)) + square (coeffs ! (n + 1 + i)))
      \<and> (\<exists>a. features ! i = Fin a \<and> 0 \<le> a)"
    by (intro allI impI) (rule amp)
  have ph: "\<exists>r. features ! (n + k - 2) = Fin r \<and> 0 \<le> r \<and> r \<le> 2 * np_pi"
    if k: "2 \<le> k \<and> k \<le> n" for k
  proof -
    define x where "x = coef_phi n coeffs ! (k - 1) - coef_phi n coeffs ! 0 * Fin (real k)"
    have e: "n + k - 2 = length (coef_mag n coeffs) + (k - 2)"
      using cl(3) k by simp
    have kl: "k - 2 < length rel" using rp(2) k by arith
    have "features ! (n + k - 2) = (rel @ [mse]) ! (k - 2)"
      unfolding f e by (rule nth_append_length_plus)
    also have "\<dots> = rel ! (k - 2)"
      using kl by (simp add: nth_append)
    finally have v: "features ! (n + k - 2) = np_mod x (Fin (2 * np_pi))"
      using rp(3) k by (simp add: x_def)
    have "n + k - 2 < length features" using lf k by arith
    then have "features ! (n + k - 2) \<in> set features" by simp
    with fin v have "isfinite (np_mod x (Fin (2 * np_pi)))" by simp
    then have "isfinite x" by (rule np_mod_finite)
    then obtain a where "x = Fin a" by (cases x) auto
    with np_mod_two_pi_range [of a] v show ?thesis
      by auto
  qed
  have phs: "\<forall>k. 2 \<le> k \<and> k \<le> n \<longrightarrow>
      (\<exists>r. features ! (n + k - 2) = Fin r \<and> 0 \<le> r \<and> r \<le> 2 * np_pi)"
    by (intro allI impI) (rule ph)
  show ?thesis
    using o c len amps phs
    by - (rule exI [of _ omega], rule exI [of _ coeffs], intro conjI, assumption+)
qed

theorem harmonic_amplitudes_and_phases_in_range_witness:
  "harmonics_object
     (\<lambda>A. Inr [[Fin 0], [Fin (- 1)], [Fin (- 1)], [Fin 1], [Fin 1], [Fin 1], [Fin 1], [Fin 1],
                [Fin 0], [Fin 0], [Fin 0], [Fin 0], [Fin 0], [Fin 0], [Fin 0]])
     7 [''Multiband_period'' \<mapsto> [''ZTF18b'' \<mapsto> Fin 2]] 1
     [\<lparr>oid = ''ZTF18b'', fid = 1, mjd = Fin 0, magpsf = Fin 1, sigmapsf = Fin 0.99,
        magpsf_ml = Fin 1, sigmapsf_ml = Fin 0.99\<rparr>] ''ZTF18b'' =
   ([], [Fin 1, Fin 1, Fin 1, Fin 1, Fin 1, Fin 1, Fin 1,
         Fin np_pi, Fin np_pi, Fin 0, Fin np_pi, Fin 0, Fin np_pi, Fin 4])
   \<and> list_all isfinite [Fin 1, Fin 1, Fin 1, Fin 1, Fin 1, Fin 1, Fin 1,
         Fin np_pi, Fin np_pi, Fin 0, Fin np_pi, Fin 0, Fin np_pi, Fin 4]
   \<and> (\<exists>r. [Fin 1, Fin 1, Fin 1, Fin 1, Fin 1, Fin 1, Fin 1,
         Fin np_pi, Fin np_pi, Fin 0, Fin np_pi, Fin 0, Fin np_pi, Fin 4] ! 7 = Fin r
        \<and> 0 \<le> r \<and> r \<le> 2 * np_pi)"
proof -
  define dets where "dets =
     [\<lparr>oid = ''ZTF18b'', fid = 1, mjd = Fin 0, magpsf = Fin 1, sigmapsf = Fin 0.99,
        magpsf_ml = Fin 1, sigmapsf_ml = Fin 0.99\<rparr>]"
  note e = harmonics_object_example [folded dets_def]
  have fin: "\<forall>x\<in>set [Fin 1, Fin 1, Fin 1, Fin 1, Fin 1, Fin 1, Fin 1,
         Fin np_pi, Fin np_pi, Fin 0, Fin np_pi, Fin 0, Fin np_pi, Fin 4]. isfinite x"
    by simp
  have rows: "dets = filter (\<lambda>d. fid d = 1) (filter (\<lambda>d. oid d = ''ZTF18b'') dets)"
    by (simp add: dets_def)
  from harmonic_amplitudes_and_phases_in_range [OF e fin rows]
  have "\<forall>k. 2 \<le> k \<and> k \<le> (7::nat) \<longrightarrow>
      (\<exists>r. [Fin 1, Fin 1, Fin 1, Fin 1, Fin 1, Fin 1, Fin 1,
         Fin np_pi, Fin np_pi, Fin 0, Fin np_pi, Fin 0, Fin np_pi, Fin 4] ! (7 + k - 2) = Fin r
        \<and> 0 \<le> r \<and> r \<le> 2 * np_pi)"
    by blast
  from this [rule_format, of 2]
  have "\<exists>r. [Fin 1, Fin 1, Fin 1, Fin 1, Fin 1, Fin 1, Fin 1,
         Fin np_pi, Fin np_pi, Fin 0, Fin np_pi, Fin 0, Fin np_pi, Fin 4] ! 7 = Fin r
        \<and> 0 \<le> r \<and> r \<le> 2 * np_pi"
    by simp
  with harmonics_object_example show ?thesis by simp
qed

text \<open>
  The upper end \<open>2 * np.pi\<close> is reached, so the interval of claim C5 is not half-open:
  when the difference of the raw phases is negative and tiny, the addition of
  \<open>2 * np.pi\<close> in the remainder rounds to \<open>2 * np.pi\<close> itself.
\<close>

lemma np_mod_tiny_negative:
  assumes t: "0 < t" "t < 1 / 2 ^ 51"
  shows "np_mod (Fin (- t)) (Fin (2 * np_pi)) = Fin (2 * np_pi)"
proof -
  define b where "b = 2 * np_pi"
  have b: "6 < b" "b < 8" "b = 7074237752028440 / 2 ^ 50"
    by (simp_all add: b_def np_pi_def)
  have q: "- 1 < - t / b" "- t / b < 0"
    using t b by (simp_all add: field_simps)
  then have c: "\<lceil>- t / b\<rceil> = 0"
    by (intro ceiling_unique) simp_all
  have m: "fmod (- t) b = - t"
    using q c by (simp add: fmod_def)
  define x where "x = - t + b"
  have x: "4 \<le> x" "x < 8"
    using t b by (simp_all add: x_def)
  have "\<lfloor>log 2 \<bar>x\<bar>\<rfloor> = 2"
    using x floor_log_eq_powr_iff [of x 2 2] by simp
  then have r: "round64 x = of_int (round_half_even (x * 2 ^ 50)) / 2 ^ 50"
    using x by (simp add: round64_def Let_def powr_minus_divide powr_realpow [symmetric])
  have xe: "x * 2 ^ 50 = 7074237752028440 - t * 2 ^ 50"
    by (simp add: x_def b algebra_simps)
  have eps: "0 < t * 2 ^ 50" "t * 2 ^ 50 < 1 / 2"
    using t by (simp_all add: field_simps)
  have fl: "\<lfloor>x * 2 ^ 50\<rfloor> = 7074237752028439"
    unfolding xe using eps by (intro floor_unique) simp_all
  have d: "x * 2 ^ 50 - of_int \<lfloor>x * 2 ^ 50\<rfloor> = 1 - t * 2 ^ 50"
    unfolding fl using xe by simp
  have "round_half_even (x * 2 ^ 50) = \<lfloor>x * 2 ^ 50\<rfloor> + 1"
    unfolding round_half_even_def Let_def d using eps by simp
  then have "round_half_even (x * 2 ^ 50) = 7074237752028440"
    unfolding fl by simp
  with r have "round64 x = b"
    by (simp add: b)
  then have rx: "round64 (b - t) = b"
    by (simp add: x_def)
  have s: "b \<noteq> 0" "\<not> b < 0" "- t \<noteq> 0" "- t < 0"
    using t b(1) by simp_all
  have "np_mod (Fin (- t)) (Fin b) = Fin b"
    using s by (simp add: Let_def m rx)
  then show ?thesis
    by (simp only: b_def)
qed

lemma arctan_tiny: "0 < arctan (1 / 2 ^ 60)" "arctan (1 / 2 ^ 60) \<le> 1 / 2 ^ 60"
proof -
  show "0 < arctan (1 / 2 ^ 60)" by simp
  have "arctan (1 / 2 ^ 60) \<le> (\<Sum>i<2 * 0 + 1. (- 1) ^ i * (1 / real (i * 2 + 1) * (1 / 2 ^ 60) ^ (i * 2 + 1)))"
    by (rule arctan_series_bounds(2)) simp_all
  then show "arctan (1 / 2 ^ 60) \<le> 1 / 2 ^ 60" by simp
qed

text \<open>
  The raw phase of a harmonic with the cosine coefficient 1 and the sine coefficient
  \<open>-2\<^sup>-\<^sup>6\<^sup>0\<close> is negative and above \<open>-2\<^sup>-\<^sup>5\<^sup>1\<close>.
\<close>

lemma np_arctan2_tiny:
  "\<exists>t. np_arctan2 (Fin (- (1 / 2 ^ 60))) (Fin 1) = Fin (- t) \<and> 0 < t \<and> t < 1 / 2 ^ 51"
proof -
  define x where "x = arctan2 (- (1 / 2 ^ 60)) 1"
  have a: "x = - arctan (1 / 2 ^ 60)"
    by (simp add: x_def arctan2_def arctan_minus)
  have neg: "x < 0" and lo: "- (1 / 2 ^ 60) \<le> x"
    using arctan_tiny by (simp_all add: a)
  from round64_negative [OF neg] lo
  have "round64 x < 0" "- (1 / 2 ^ 51) < round64 x"
    by simp_all
  then have "np_arctan2 (Fin (- (1 / 2 ^ 60))) (Fin 1) = Fin (- (- round64 x))
      \<and> 0 < - round64 x \<and> - round64 x < 1 / 2 ^ 51"
    by (simp add: x_def)
  then show ?thesis by blast
qed

lemma first_relative_phase_can_equal_modulus:
  "relative_phase 7
     (coef_phi 7 [Fin 0, Fin 1, Fin 1, Fin 1, Fin 1, Fin 1, Fin 1, Fin 1,
                  Fin 0, Fin (- (1 / 2 ^ 60)), Fin 0, Fin 0, Fin 0, Fin 0, Fin 0]) =
   Inr [Fin (2 * np_pi), Fin 0, Fin 0, Fin 0, Fin 0, Fin 0]"
proof -
  from np_arctan2_tiny obtain t where
    q: "np_arctan2 (Fin (- (1 / 2 ^ 60))) (Fin 1) = Fin (- t)" and t: "0 < t" "t < 1 / 2 ^ 51"
    by blast
  have p: "coef_phi 7 [Fin 0, Fin 1, Fin 1, Fin 1, Fin 1, Fin 1, Fin 1, Fin 1,
                  Fin 0, Fin (- (1 / 2 ^ 60)), Fin 0, Fin 0, Fin 0, Fin 0, Fin 0] =
      [Fin 0, Fin (- t), Fin 0, Fin 0, Fin 0, Fin 0, Fin 0]"
    using q np_arctan2_one
    by (simp add: coef_phi_def coef_cos_def coef_sin_def del: np_arctan2.simps)
  note m = np_mod_tiny_negative [OF t]
  show ?thesis
    unfolding p using m
    by (simp add: relative_phase_def upt_1_8 minus_fl_def np_mod_zero del: np_mod.simps)
qed

text \<open>
  So for one detection and a pseudo-inverse that gives these coefficients, the pass
  succeeds, every value of the row is finite, and the phase of harmonic 2 is
  \<open>2 * np.pi\<close>, which is not less than \<open>2 * np.pi\<close>.
\<close>

theorem phase_of_harmonic_two_reaches_modulus:
  "\<exists>row.
     harmonics_object
       (\<lambda>A. Inr [[Fin 0], [Fin 1], [Fin 1], [Fin 1], [Fin 1], [Fin 1], [Fin 1], [Fin 1],
                  [Fin 0], [Fin (- (1 / 2 ^ 60))], [Fin 0], [Fin 0], [Fin 0], [Fin 0], [Fin 0]])
       7 [''Multiband_period'' \<mapsto> [''ZTF18b'' \<mapsto> Fin 2]] 1
       [\<lparr>oid = ''ZTF18b'', fid = 1, mjd = Fin 0, magpsf = Fin 1, sigmapsf = Fin 0.99,
          magpsf_ml = Fin 1, sigmapsf_ml = Fin 0.99\<rparr>] ''ZTF18b'' = ([], row)
     \<and> list_all isfinite row
     \<and> row ! 7 = Fin (2 * np_pi)
     \<and> \<not> fl_less (row ! 7) (Fin (2 * np_pi))"
proof -
  define mags where "mags = coef_mag 7 [Fin 0, Fin 1, Fin 1, Fin 1, Fin 1, Fin 1, Fin 1, Fin 1,
      Fin 0, Fin (- (1 / 2 ^ 60)), Fin 0, Fin 0, Fin 0, Fin 0, Fin 0]"
  define row where
    "row = mags @ [Fin (2 * np_pi), Fin 0, Fin 0, Fin 0, Fin 0, Fin 0] @ [Fin 36]"
  have e: "harmonics_object
       (\<lambda>A. Inr [[Fin 0], [Fin 1], [Fin 1], [Fin 1], [Fin 1], [Fin 1], [Fin 1], [Fin 1],
                  [Fin 0], [Fin (- (1 / 2 ^ 60))], [Fin 0], [Fin 0], [Fin 0], [Fin 0], [Fin 0]])
       7 [''Multiband_period'' \<mapsto> [''ZTF18b'' \<mapsto> Fin 2]] 1
       [\<lparr>oid = ''ZTF18b'', fid = 1, mjd = Fin 0, magpsf = Fin 1, sigmapsf = Fin 0.99,
          magpsf_ml = Fin 1, sigmapsf_ml = Fin 0.99\<rparr>] ''ZTF18b'' = ([], row)"
    using first_relative_phase_can_equal_modulus
    by (simp add: harmonics_object_def harmonic_fit_def harmonic_omega_def harmonic_coeffs_def
        omega_row_def np_dot_def np_sum_def np_mean_def minus_fl_def Let_def upt_1_8
        row_def mags_def)
  have l: "length mags = 7" and f: "list_all isfinite mags"
    by (simp_all add: mags_def coef_mag_def coef_cos_def coef_sin_def)
  have 7: "row ! 7 = Fin (2 * np_pi)"
    using l by (simp add: row_def nth_append)
  have "list_all isfinite row"
    using f by (simp add: row_def)
  with e 7 show ?thesis
    by (intro exI [of _ row]) simp
qed

end
